theory Spec2Isabelle
  imports Main
begin

section \<open>JavaScript values as the handlers see them\<close>

text \<open>
  The request body, the stored course documents and the cached progress records are
  untyped JavaScript values (\<^verbatim>\<open>any\<close>). They are modelled as JSON trees. An object is
  the list of its fields in insertion order; a field is read by its first occurrence.
  A property that is absent reads as \<^verbatim>\<open>undefined\<close>, which is \<open>None\<close> here.

  A string is the list of its code units, each below 256 (a \<^typ>\<open>char\<close>); strings with
  other code units are outside the model.

  A JavaScript number is a double. \<open>JNum n\<close> with \<open>\<bar>n\<bar> < 2 ^ 53\<close> is the double that holds
  the integer \<open>n\<close> exactly. \<open>JNum n\<close> with a larger \<open>n\<close> is the double the engine has
  where the mathematical value is \<open>n\<close>: a rounded value or an infinity, which the model
  does not track, so nothing is said of its text or of its being an integer. Fractional
  numbers are outside the model.
\<close>

datatype json =
    JNull
  | JBool bool
  | JNum int
  | JStr string
  | JArr "json list"
  | JObj "(string \<times> json) list"

type_synonym jobj = "(string \<times> json) list"

text \<open>What a thrown JavaScript exception was. All of them end in a handler's catch branch.\<close>

datatype js_error =
    TypeError
  | SyntaxError
  | StoreError
  | Error string

text \<open>The integers a double holds exactly.\<close>

definition safe_integer :: "int \<Rightarrow> bool" where
  "safe_integer n = (\<bar>n\<bar> < 2 ^ 53)"

subsection \<open>Collaborators\<close>

text \<open>
  What the handlers call but the repository does not define, and what the JSON tree of a
  value does not determine, is a parameter:
  \<^item> \<open>uuidv4_src\<close>: the identifiers \<^verbatim>\<open>uuidv4()\<close> returns, in the order of the calls;
  \<^item> \<open>JSON_parse\<close>: \<^verbatim>\<open>JSON.parse\<close>, \<open>None\<close> when it throws a \<^verbatim>\<open>SyntaxError\<close>;
  \<^item> \<open>schema_accepts\<close>: whether \<^verbatim>\<open>course.save()\<close> goes through for a document: the
    course schema (declared in \<^verbatim>\<open>models/courseModel\<close>) takes it, and no field written
    by \<^verbatim>\<open>Object.assign\<close> hides what \<^verbatim>\<open>save\<close> needs of the document;
  \<^item> \<open>getSignedUrl\<close>: the storage client's signer, \<open>Inl\<close> the message of the error it throws;
  \<^item> \<open>number_text\<close>: the text \<^verbatim>\<open>String(x)\<close> prints for a number beyond the exact range
    (such as \<^verbatim>\<open>1e+21\<close> or \<^verbatim>\<open>Infinity\<close>);
  \<^item> \<open>object_text\<close>: what \<^verbatim>\<open>String(o)\<close> does for an object: it returns
    \<^verbatim>\<open>[object Object]\<close> for a plain object, and throws a \<^verbatim>\<open>TypeError\<close> for an object
    with a \<^verbatim>\<open>toString\<close> field of its own or without a prototype.
\<close>

record s3Params =
  Bucket :: string
  Key :: string
  Expires :: nat
  ContentType :: json

record env =
  uuidv4_src :: "nat \<Rightarrow> string"
  JSON_parse :: "string \<Rightarrow> json option"
  schema_accepts :: "jobj \<Rightarrow> bool"
  getSignedUrl :: "string \<Rightarrow> s3Params \<Rightarrow> string + string"
  number_text :: "int \<Rightarrow> string"
  object_text :: "jobj \<Rightarrow> js_error + string"

subsection \<open>Reading and writing values\<close>

text \<open>Truthiness of a value read from a property: \<^verbatim>\<open>undefined\<close>, \<^verbatim>\<open>null\<close>,
  \<^verbatim>\<open>false\<close>, \<^verbatim>\<open>0\<close> and the empty string are falsy, everything else is truthy.\<close>

fun truthy :: "json option \<Rightarrow> bool" where
  "truthy None = False"
| "truthy (Some JNull) = False"
| "truthy (Some (JBool b)) = b"
| "truthy (Some (JNum n)) = (n \<noteq> 0)"
| "truthy (Some (JStr s)) = (s \<noteq> [])"
| "truthy (Some (JArr xs)) = True"
| "truthy (Some (JObj fs)) = True"

text \<open>Reading \<^verbatim>\<open>v.k\<close> for one of the keys the handlers use (none of them is a built-in
  property of a string, an array, a number or a boolean). Reading a property of
  \<^verbatim>\<open>null\<close> throws; the callers test for \<open>JNull\<close> before they use \<open>get_prop\<close>.\<close>

fun get_prop :: "json \<Rightarrow> string \<Rightarrow> json option" where
  "get_prop (JObj fs) k = map_of fs k"
| "get_prop v k = None"

text \<open>Writing \<^verbatim>\<open>o[k] = v\<close>: an existing field keeps its place, a new one goes last.\<close>

fun obj_set :: "string \<Rightarrow> json \<Rightarrow> jobj \<Rightarrow> jobj" where
  "obj_set k v [] = [(k, v)]"
| "obj_set k v (p # ps) = (if fst p = k then (k, v) # ps else p # obj_set k v ps)"

text \<open>\<^verbatim>\<open>Object.assign(target, source)\<close>: every field of the source is written to the target.\<close>

fun object_assign :: "jobj \<Rightarrow> jobj \<Rightarrow> jobj" where
  "object_assign target [] = target"
| "object_assign target (p # ps) = object_assign (obj_set (fst p) (snd p) target) ps"

text \<open>Decimal digits of a natural number, as \<^verbatim>\<open>String(n)\<close> prints them.\<close>

definition digit_char :: "nat \<Rightarrow> char" where
  "digit_char d = ''0123456789'' ! d"

fun dec :: "nat \<Rightarrow> string" where
  "dec n = (if n < 10 then [digit_char n] else dec (n div 10) @ [digit_char (n mod 10)])"

declare dec.simps [simp del]

fun indexed :: "nat \<Rightarrow> json list \<Rightarrow> jobj" where
  "indexed i [] = []"
| "indexed i (x # xs) = (dec i, x) # indexed (Suc i) xs"

text \<open>The object spread \<^verbatim>\<open>{...v}\<close>: the own enumerable properties of the value. An object
  gives its fields, a string its characters and an array its elements under their
  indices, anything else nothing.\<close>

fun spread :: "json \<Rightarrow> jobj" where
  "spread (JObj fs) = fs"
| "spread (JStr s) = indexed 0 (map (\<lambda>c. JStr [c]) s)"
| "spread (JArr xs) = indexed 0 xs"
| "spread v = []"

text \<open>\<^verbatim>\<open>String(v)\<close>, which \<^verbatim>\<open>parseInt\<close> and the template literals apply to their
  arguments; \<open>Inl\<close> is the error it throws. An integer in the exact range prints its
  decimal digits. An array prints its elements joined by commas, \<^verbatim>\<open>null\<close> as the empty
  string, and throws when an element does.\<close>

fun js_toString :: "env \<Rightarrow> json \<Rightarrow> js_error + string"
  and array_join :: "env \<Rightarrow> json list \<Rightarrow> js_error + string"
where
  "js_toString E JNull = Inr ''null''"
| "js_toString E (JBool b) = Inr (if b then ''true'' else ''false'')"
| "js_toString E (JNum n) =
     Inr (if safe_integer n
          then (if n < 0 then ''-'' @ dec (nat (- n)) else dec (nat n))
          else number_text E n)"
| "js_toString E (JStr s) = Inr s"
| "js_toString E (JArr xs) = array_join E xs"
| "js_toString E (JObj fs) = object_text E fs"
| "array_join E [] = Inr []"
| "array_join E (x # xs) =
     (case (if x = JNull then Inr [] else js_toString E x) of
        Inl e \<Rightarrow> Inl e
      | Inr s \<Rightarrow>
          if xs = [] then Inr s
          else (case array_join E xs of
                  Inl e \<Rightarrow> Inl e
                | Inr t \<Rightarrow> Inr (s @ '','' @ t)))"

subsection \<open>parseInt\<close>

text \<open>
  \<^verbatim>\<open>parseInt(s)\<close> with no radix: leading white space is skipped, one sign is read, a
  prefix \<^verbatim>\<open>0x\<close> or \<^verbatim>\<open>0X\<close> switches to radix 16, and the longest run of digits that
  follows is the value. No digit at all gives \<^verbatim>\<open>NaN\<close>, which is \<open>None\<close> here.
  The result is the mathematical value of the digits; the number the engine returns is
  that integer in the exact range and an approximation of it beyond.
  Among the code units below 256 the white space and line terminators of the language
  are TAB, LF, VT, FF, CR, the space and the no-break space U+00A0.
\<close>

definition is_space :: "char \<Rightarrow> bool" where
  "is_space c =
     (c \<in> set [CHR 0x09, CHR 0x0A, CHR 0x0B, CHR 0x0C, CHR 0x0D, CHR '' '', CHR 0xA0])"

definition digit_of :: "nat \<Rightarrow> char \<Rightarrow> nat option" where
  "digit_of radix c =
     (let n = (of_char c :: nat);
          d = (if 48 \<le> n \<and> n \<le> 57 then Some (n - 48)
               else if 97 \<le> n \<and> n \<le> 122 then Some (n - 87)
               else if 65 \<le> n \<and> n \<le> 90 then Some (n - 55)
               else None)
      in case d of None \<Rightarrow> None | Some v \<Rightarrow> if v < radix then Some v else None)"

text \<open>The digits are read left to right; \<open>acc\<close> is \<open>None\<close> until the first digit.\<close>

fun read_digits :: "nat \<Rightarrow> nat option \<Rightarrow> string \<Rightarrow> nat option" where
  "read_digits radix acc [] = acc"
| "read_digits radix acc (c # cs) =
     (case digit_of radix c of
        None \<Rightarrow> acc
      | Some d \<Rightarrow>
          read_digits radix (Some ((case acc of None \<Rightarrow> 0 | Some a \<Rightarrow> a) * radix + d)) cs)"

fun strip_sign :: "string \<Rightarrow> bool \<times> string" where
  "strip_sign [] = (False, [])"
| "strip_sign (c # cs) =
     (if c = CHR ''-'' then (True, cs)
      else if c = CHR ''+'' then (False, cs)
      else (False, c # cs))"

fun strip_radix :: "string \<Rightarrow> nat \<times> string" where
  "strip_radix (a # b # cs) =
     (if a = CHR ''0'' \<and> (b = CHR ''x'' \<or> b = CHR ''X'') then (16, cs) else (10, a # b # cs))"
| "strip_radix cs = (10, cs)"

definition parseInt :: "string \<Rightarrow> int option" where
  "parseInt s =
     (let (neg, s1) = strip_sign (dropWhile is_space s);
          (radix, s2) = strip_radix s1
      in case read_digits radix None s2 of
           None \<Rightarrow> None
         | Some m \<Rightarrow> Some (if neg then - int m else int m))"

section \<open>The course service\<close>

subsection \<open>State and responses\<close>

text \<open>The course table, addressed by \<^verbatim>\<open>courseId\<close>, and the number of identifiers drawn so far.\<close>

record world =
  courses :: "string \<rightharpoonup> jobj"
  uuid_next :: nat

text \<open>The JSON envelope a handler sends: \<^verbatim>\<open>res.status(..).json({message, data, error})\<close>.\<close>

datatype err_body = ErrText string | ErrThrown js_error

record response =
  status :: nat
  message :: string
  data :: "json option"
  error :: "err_body option"

definition reply :: "nat \<Rightarrow> string \<Rightarrow> response" where
  "reply st msg = \<lparr>status = st, message = msg, data = None, error = None\<rparr>"

definition reply_data :: "string \<Rightarrow> json \<Rightarrow> response" where
  "reply_data msg d = \<lparr>status = 200, message = msg, data = Some d, error = None\<rparr>"

definition reply_error :: "nat \<Rightarrow> string \<Rightarrow> err_body \<Rightarrow> response" where
  "reply_error st msg e = \<lparr>status = st, message = msg, data = None, error = Some e\<rparr>"

text \<open>\<^verbatim>\<open>course.save()\<close>: the document is put under its own \<^verbatim>\<open>courseId\<close>; the store
  throws when the key is not a string or the schema refuses the document.\<close>

definition save :: "env \<Rightarrow> jobj \<Rightarrow> world \<Rightarrow> js_error + world" where
  "save E doc w =
     (case map_of doc ''courseId'' of
        Some (JStr k) \<Rightarrow>
          if schema_accepts E doc then Inr (w\<lparr>courses := (courses w)(k \<mapsto> doc)\<rparr>)
          else Inl StoreError
      | _ \<Rightarrow> Inl StoreError)"

text \<open>\<^verbatim>\<open>course.teacherId !== userId\<close> negated: strict equality of the stored field and
  the \<^verbatim>\<open>userId\<close> of \<^verbatim>\<open>getAuth\<close>, which is a string or \<^verbatim>\<open>null\<close>.\<close>

fun owner_is :: "json option \<Rightarrow> string option \<Rightarrow> bool" where
  "owner_is (Some (JStr t)) (Some u) = (t = u)"
| "owner_is (Some JNull) None = True"
| "owner_is t u = False"

subsection \<open>getCourse and createCourse\<close>

definition getCourse :: "string \<Rightarrow> world \<Rightarrow> response" where
  "getCourse courseId w =
     (case courses w courseId of
        None \<Rightarrow> reply 404 ''Course not found''
      | Some course \<Rightarrow> reply_data ''Course retrieved successfully'' (JObj course))"


subsection \<open>updateCourse\<close>

text \<open>\<^verbatim>\<open>x || uuidv4()\<close>: a truthy value stays, anything else draws the next identifier.\<close>

definition or_uuid :: "env \<Rightarrow> json option \<Rightarrow> nat \<Rightarrow> json \<times> nat" where
  "or_uuid E x n =
     (case x of
        None \<Rightarrow> (JStr (uuidv4_src E n), Suc n)
      | Some v \<Rightarrow> if truthy (Some v) then (v, n) else (JStr (uuidv4_src E n), Suc n))"

text \<open>\<^verbatim>\<open>xs.map(f)\<close> for a callback that draws identifiers and may throw: the elements are
  visited in order and the first exception ends the loop.\<close>

fun array_map ::
  "(json \<Rightarrow> nat \<Rightarrow> (js_error + json) \<times> nat) \<Rightarrow> json list \<Rightarrow> nat \<Rightarrow> (js_error + json list) \<times> nat"
where
  "array_map f [] n = (Inr [], n)"
| "array_map f (x # xs) n =
     (case f x n of
        (Inl e, n1) \<Rightarrow> (Inl e, n1)
      | (Inr y, n1) \<Rightarrow>
          (case array_map f xs n1 of
             (Inl e, n2) \<Rightarrow> (Inl e, n2)
           | (Inr ys, n2) \<Rightarrow> (Inr (y # ys), n2)))"

text \<open>The inner callback, lines 117 to 120:
  \<^verbatim>\<open>(chapter) => ({ ...chapter, chapterId: chapter.chapterId || uuidv4() })\<close>.\<close>

definition normalize_chapter :: "env \<Rightarrow> json \<Rightarrow> nat \<Rightarrow> (js_error + json) \<times> nat" where
  "normalize_chapter E chapter n =
     (if chapter = JNull then (Inl TypeError, n)
      else
        let (chapterId, n1) = or_uuid E (get_prop chapter ''chapterId'') n
        in (Inr (JObj (obj_set ''chapterId'' chapterId (spread chapter))), n1))"

text \<open>The outer callback, lines 114 to 121. \<^verbatim>\<open>section.chapters.map\<close> throws a
  \<^verbatim>\<open>TypeError\<close> unless \<^verbatim>\<open>section.chapters\<close> is an array.\<close>

definition normalize_section :: "env \<Rightarrow> json \<Rightarrow> nat \<Rightarrow> (js_error + json) \<times> nat" where
  "normalize_section E section n =
     (if section = JNull then (Inl TypeError, n)
      else
        let (sectionId, n1) = or_uuid E (get_prop section ''sectionId'') n
        in (case get_prop section ''chapters'' of
              Some (JArr chapters) \<Rightarrow>
                (case array_map (normalize_chapter E) chapters n1 of
                   (Inl e, n2) \<Rightarrow> (Inl e, n2)
                 | (Inr chapters', n2) \<Rightarrow>
                     (Inr (JObj (obj_set ''chapters'' (JArr chapters')
                                  (obj_set ''sectionId'' sectionId (spread section)))), n2))
            | _ \<Rightarrow> (Inl TypeError, n1)))"

text \<open>Lines 109 to 121 for a truthy \<^verbatim>\<open>updateData.sections\<close>: a string goes through
  \<^verbatim>\<open>JSON.parse\<close>, and \<^verbatim>\<open>sectionsData.map\<close> throws unless the value is an array.\<close>

definition normalize_sections :: "env \<Rightarrow> json \<Rightarrow> nat \<Rightarrow> (js_error + json) \<times> nat" where
  "normalize_sections E sections n =
     (case (case sections of
              JStr s \<Rightarrow> (case JSON_parse E s of None \<Rightarrow> Inl SyntaxError | Some d \<Rightarrow> Inr d)
            | v \<Rightarrow> Inr v) of
        Inl e \<Rightarrow> (Inl e, n)
      | Inr (JArr sectionsData) \<Rightarrow>
          (case array_map (normalize_section E) sectionsData n of
             (Inl e, n1) \<Rightarrow> (Inl e, n1)
           | (Inr xs, n1) \<Rightarrow> (Inr (JArr xs), n1))
      | Inr _ \<Rightarrow> (Inl TypeError, n))"

text \<open>Lines 96 to 106: a truthy \<^verbatim>\<open>updateData.price\<close> must pass \<^verbatim>\<open>parseInt\<close> and is
  replaced by a hundred times its value. \<open>Inl\<close> is the response sent instead: 400 when
  \<^verbatim>\<open>parseInt\<close> gives \<^verbatim>\<open>NaN\<close>, and the 500 of the catch branch when the conversion of
  the price to a string throws. The product is a double: \<open>JNum (price * 100)\<close> is the
  integer itself in the exact range and an untracked double (a rounded value or an
  infinity, neither of them \<^verbatim>\<open>NaN\<close>) beyond.\<close>

definition normalize_price :: "env \<Rightarrow> jobj \<Rightarrow> response + jobj" where
  "normalize_price E updateData =
     (case map_of updateData ''price'' of
        None \<Rightarrow> Inr updateData
      | Some p \<Rightarrow>
          if truthy (Some p) then
            (case js_toString E p of
               Inl e \<Rightarrow> Inl (reply_error 500 ''Error updating course'' (ErrThrown e))
             | Inr str \<Rightarrow>
                 (case parseInt str of
                    None \<Rightarrow> Inl (reply_error 400 ''Invalid price format''
                                  (ErrText ''Price must be a valid number''))
                  | Some price \<Rightarrow> Inr (obj_set ''price'' (JNum (price * 100)) updateData)))
          else Inr updateData)"

text \<open>Lines 108 to 122: the sections of the patch, when truthy, are replaced by their
  normalized form.\<close>

definition update_sections :: "env \<Rightarrow> jobj \<Rightarrow> nat \<Rightarrow> (js_error + jobj) \<times> nat" where
  "update_sections E updateData n =
     (case map_of updateData ''sections'' of
        None \<Rightarrow> (Inr updateData, n)
      | Some s \<Rightarrow>
          if truthy (Some s) then
            (case normalize_sections E s n of
               (Inl e, n1) \<Rightarrow> (Inl e, n1)
             | (Inr s', n1) \<Rightarrow> (Inr (obj_set ''sections'' s' updateData), n1))
          else (Inr updateData, n))"

definition updateCourse ::
  "env \<Rightarrow> string \<Rightarrow> string option \<Rightarrow> jobj \<Rightarrow> world \<Rightarrow> response \<times> world"
where
  "updateCourse E courseId userId body w =
     (case courses w courseId of
        None \<Rightarrow> (reply 404 ''Course not found'', w)
      | Some course \<Rightarrow>
          if \<not> owner_is (map_of course ''teacherId'') userId
          then (reply 403 ''Not authorized to update this course '', w)
          else
            (case normalize_price E body of
               Inl bad \<Rightarrow> (bad, w)
             | Inr updateData1 \<Rightarrow>
                 (case update_sections E updateData1 (uuid_next w) of
                    (Inl e, n) \<Rightarrow>
                      (reply_error 500 ''Error updating course'' (ErrThrown e),
                       w\<lparr>uuid_next := n\<rparr>)
                  | (Inr updateData, n) \<Rightarrow>
                      let course' = object_assign course updateData;
                          w1 = w\<lparr>uuid_next := n\<rparr>
                      in (case save E course' w1 of
                            Inl e \<Rightarrow>
                              (reply_error 500 ''Error updating course'' (ErrThrown e), w1)
                          | Inr w2 \<Rightarrow>
                              (reply_data ''Course updated successfully'' (JObj course'), w2)))))"

subsection \<open>deleteCourse\<close>

definition deleteCourse :: "string \<Rightarrow> string option \<Rightarrow> world \<Rightarrow> response \<times> world" where
  "deleteCourse courseId userId w =
     (case courses w courseId of
        None \<Rightarrow> (reply 404 ''Course not found'', w)
      | Some course \<Rightarrow>
          if \<not> owner_is (map_of course ''teacherId'') userId
          then (reply 403 ''Not authorized to delete this course '', w)
          else (reply_data ''Course deleted successfully'' (JObj course),
                w\<lparr>courses := (courses w)(courseId := None)\<rparr>))"

section \<open>The upload URL service\<close>

text \<open>The two environment variables \<^verbatim>\<open>getUploadVideoUrl\<close> reads; \<open>None\<close> is an unset variable.\<close>

record process_env =
  S3_BUCKET_NAME :: "string option"
  CLOUDFRONT_DOMAIN :: "string option"

text \<open>A template literal prints an unset variable as \<^verbatim>\<open>undefined\<close>.\<close>

definition template_env :: "string option \<Rightarrow> string" where
  "template_env v = (case v of None \<Rightarrow> ''undefined'' | Some s \<Rightarrow> s)"

text \<open>The handler returns its response, the requests it made to the signer, and the
  state (one identifier is drawn once the body has passed the check). The template
  literal of line 201 converts \<^verbatim>\<open>fileName\<close> to a string; when that throws, the catch
  branch answers 500 with the message of the error.\<close>

definition getUploadVideoUrl ::
  "env \<Rightarrow> process_env \<Rightarrow> jobj \<Rightarrow> world \<Rightarrow> (response \<times> s3Params list) \<times> world"
where
  "getUploadVideoUrl E penv body w =
     (case (map_of body ''fileName'', map_of body ''fileType'') of
        (Some fileName, Some fileType) \<Rightarrow>
          if \<not> truthy (Some fileName) \<or> \<not> truthy (Some fileType)
          then ((reply 400 ''File name and type are required'', []), w)
          else
            let uniqueId = uuidv4_src E (uuid_next w);
                w1 = w\<lparr>uuid_next := Suc (uuid_next w)\<rparr>
            in (case js_toString E fileName of
                  Inl e \<Rightarrow>
                    ((reply_error 500 ''Error generating upload URL'' (ErrThrown e), []), w1)
                | Inr name \<Rightarrow>
                    let s3Key = ''videos/'' @ uniqueId @ ''/'' @ name
                    in (case S3_BUCKET_NAME penv of
                          None \<Rightarrow>
                            ((reply_error 500 ''Error generating upload URL''
                                (ErrText ''S3_BUCKET_NAME is not configured''), []), w1)
                        | Some bucket \<Rightarrow>
                            if bucket = [] then
                              ((reply_error 500 ''Error generating upload URL''
                                  (ErrText ''S3_BUCKET_NAME is not configured''), []), w1)
                            else
                              let s3Params = \<lparr>Bucket = bucket, Key = s3Key, Expires = 60,
                                               ContentType = fileType\<rparr>
                              in (case getSignedUrl E ''putObject'' s3Params of
                                    Inl msg \<Rightarrow>
                                      ((reply_error 500 ''Error generating upload URL''
                                          (ErrText msg), [s3Params]), w1)
                                  | Inr uploadUrl \<Rightarrow>
                                      let videoUrl = template_env (CLOUDFRONT_DOMAIN penv)
                                                       @ ''/videos/'' @ uniqueId @ ''/'' @ name
                                      in ((reply_data ''Upload URL generated successfully''
                                             (JObj [(''uploadUrl'', JStr uploadUrl),
                                                    (''videoUrl'', JStr videoUrl)]),
                                           [s3Params]), w1))))
      | _ \<Rightarrow> ((reply 400 ''File name and type are required'', []), w))"

section \<open>The client data layer: the optimistic progress patch\<close>

text \<open>
  \<^verbatim>\<open>updateUserCourseProgress.onQueryStarted\<close> patches the cached result of
  \<^verbatim>\<open>getUserCourseProgress\<close> through \<^verbatim>\<open>api.util.updateQueryData\<close> and calls
  \<^verbatim>\<open>patchResult.undo()\<close> when \<^verbatim>\<open>queryFulfilled\<close> rejects. The query cache of the
  library is a map from the query arguments \<open>(userId, courseId)\<close> to the cached record.
  \<^verbatim>\<open>updateQueryData\<close> runs the recipe on the cached record, records what changed as
  patches together with the patches that revert them, and writes the patches to the
  cache; \<^verbatim>\<open>undo\<close> writes the reverting patches. A recipe that assigns top-level fields
  produces one patch for each field whose value changed.
\<close>

datatype patch = Replace string json | Add string json | Remove string

record patch_collection =
  patches :: "patch list"
  inversePatches :: "patch list"

type_synonym query_cache = "(string \<times> string) \<rightharpoonup> jobj"

fun apply_patch :: "jobj \<Rightarrow> patch \<Rightarrow> jobj" where
  "apply_patch obj (Replace k v) = obj_set k v obj"
| "apply_patch obj (Add k v) = obj_set k v obj"
| "apply_patch obj (Remove k) = filter (\<lambda>p. fst p \<noteq> k) obj"

definition applyPatches :: "jobj \<Rightarrow> patch list \<Rightarrow> jobj" where
  "applyPatches obj ps = foldl apply_patch obj ps"

text \<open>The fields of the new record that the old one lacks or holds with another value,
  each as a patch and the patch that reverts it.\<close>

fun written_fields :: "jobj \<Rightarrow> jobj \<Rightarrow> (patch \<times> patch) list" where
  "written_fields base [] = []"
| "written_fields base (p # ps) =
     (case map_of base (fst p) of
        None \<Rightarrow> (Add (fst p) (snd p), Remove (fst p)) # written_fields base ps
      | Some old \<Rightarrow>
          if old = snd p then written_fields base ps
          else (Replace (fst p) (snd p), Replace (fst p) old) # written_fields base ps)"

text \<open>The fields of the old record that the new one no longer has.\<close>

fun removed_fields :: "jobj \<Rightarrow> jobj \<Rightarrow> (patch \<times> patch) list" where
  "removed_fields [] next = []"
| "removed_fields (p # ps) next =
     (case map_of next (fst p) of
        None \<Rightarrow> (Remove (fst p), Add (fst p) (snd p)) # removed_fields ps next
      | Some v \<Rightarrow> removed_fields ps next)"

definition produceWithPatches :: "jobj \<Rightarrow> (jobj \<Rightarrow> jobj) \<Rightarrow> patch_collection" where
  "produceWithPatches base recipe =
     (let next = recipe base;
          changes = written_fields base next @ removed_fields base next
      in \<lparr>patches = map fst changes, inversePatches = rev (map snd changes)\<rparr>)"

definition patchQueryData :: "string \<times> string \<Rightarrow> patch list \<Rightarrow> query_cache \<Rightarrow> query_cache" where
  "patchQueryData args ps cache =
     (case cache args of
        None \<Rightarrow> cache
      | Some cached \<Rightarrow> cache(args \<mapsto> applyPatches cached ps))"

definition updateQueryData ::
  "string \<times> string \<Rightarrow> (jobj \<Rightarrow> jobj) \<Rightarrow> query_cache \<Rightarrow> patch_collection \<times> query_cache"
where
  "updateQueryData args recipe cache =
     (case cache args of
        None \<Rightarrow> (\<lparr>patches = [], inversePatches = []\<rparr>, cache)
      | Some cached \<Rightarrow>
          let ret = produceWithPatches cached recipe
          in (ret, patchQueryData args (patches ret) cache))"

definition undo :: "string \<times> string \<Rightarrow> patch_collection \<Rightarrow> query_cache \<Rightarrow> query_cache" where
  "undo args ret cache = patchQueryData args (inversePatches ret) cache"

text \<open>The recipe of lines 272 to 277:
  \<^verbatim>\<open>(draft) => { Object.assign(draft, { ...draft, sections: progressData.sections }) }\<close>.\<close>

definition progress_recipe :: "json \<Rightarrow> jobj \<Rightarrow> jobj" where
  "progress_recipe sections draft =
     object_assign draft (obj_set ''sections'' sections (spread (JObj draft)))"

text \<open>\<^verbatim>\<open>onQueryStarted\<close>: the cache right after the optimistic patch, and the cache once
  \<^verbatim>\<open>queryFulfilled\<close> has settled (\<open>fulfilled\<close> tells whether the call succeeded).\<close>

definition optimistic_patch ::
  "string \<times> string \<Rightarrow> json \<Rightarrow> query_cache \<Rightarrow> patch_collection \<times> query_cache"
where
  "optimistic_patch args sections cache = updateQueryData args (progress_recipe sections) cache"

definition onQueryStarted ::
  "string \<times> string \<Rightarrow> json \<Rightarrow> bool \<Rightarrow> query_cache \<Rightarrow> query_cache"
where
  "onQueryStarted args sections fulfilled cache =
     (let (patchResult, cache1) = optimistic_patch args sections cache
      in if fulfilled then cache1 else undo args patchResult cache1)"

section \<open>What the specification says, as predicates\<close>

text \<open>An object has one field for each key. The lists that stand for request bodies and
  cached records are taken with distinct keys where the order of two writes to one key
  would matter.\<close>

definition one_field_per_key :: "jobj \<Rightarrow> bool" where
  "one_field_per_key fs = distinct (map fst fs)"

text \<open>An entry lacks an identifier when the field is absent or holds a falsy value
  (\<^verbatim>\<open>null\<close>, \<^verbatim>\<open>false\<close>, \<^verbatim>\<open>0\<close>, the empty string).\<close>

definition lacks_id :: "string \<Rightarrow> json \<Rightarrow> bool" where
  "lacks_id key v = (\<not> truthy (get_prop v key))"

text \<open>The identifier rule for one entry, between the draws \<open>n\<close> and \<open>n'\<close> of the
  generator: an entry that lacks the identifier now carries a non-empty one drawn in
  between, any other entry carries the one it came with.\<close>

definition id_rule :: "env \<Rightarrow> nat \<Rightarrow> nat \<Rightarrow> string \<Rightarrow> json \<Rightarrow> json \<Rightarrow> bool" where
  "id_rule E n n' key old new =
     (if lacks_id key old
      then (\<exists>k \<in> {n..<n'}. get_prop new key = Some (JStr (uuidv4_src E k)) \<and> uuidv4_src E k \<noteq> [])
      else get_prop new key = get_prop old key)"

definition chapters_of :: "json \<Rightarrow> json list option" where
  "chapters_of section =
     (case get_prop section ''chapters'' of Some (JArr cs) \<Rightarrow> Some cs | _ \<Rightarrow> None)"

definition section_rule :: "env \<Rightarrow> nat \<Rightarrow> nat \<Rightarrow> json \<Rightarrow> json \<Rightarrow> bool" where
  "section_rule E n n' old new =
     (id_rule E n n' ''sectionId'' old new \<and>
      (case (chapters_of old, chapters_of new) of
         (Some cs, Some cs') \<Rightarrow> list_all2 (id_rule E n n' ''chapterId'') cs cs'
       | _ \<Rightarrow> False))"

text \<open>A sections list of the data model: every section has an array of chapters, and no
  chapter is \<^verbatim>\<open>null\<close>.\<close>

definition well_shaped :: "json list \<Rightarrow> bool" where
  "well_shaped secs =
     list_all (\<lambda>s. case chapters_of s of
                      Some cs \<Rightarrow> list_all (\<lambda>c. c \<noteq> JNull) cs
                    | None \<Rightarrow> False) secs"

text \<open>The sections value of a patch, given structured or as a JSON text.\<close>

definition submitted_as :: "env \<Rightarrow> json \<Rightarrow> json list \<Rightarrow> bool" where
  "submitted_as E v secs =
     (case v of
        JArr xs \<Rightarrow> xs = secs
      | JStr s \<Rightarrow> s \<noteq> [] \<and> JSON_parse E s = Some (JArr secs)
      | _ \<Rightarrow> False)"



text \<open>A section lacks a chapters array when \<^verbatim>\<open>section.chapters\<close> is anything but an array.\<close>

definition lacks_chapters :: "json \<Rightarrow> bool" where
  "lacks_chapters section = (chapters_of section = None)"

text \<open>A value that a callback maps to itself without drawing an identifier.\<close>

definition settled :: "(json \<Rightarrow> nat \<Rightarrow> (js_error + json) \<times> nat) \<Rightarrow> json \<Rightarrow> bool" where
  "settled f y = (\<forall>m. f y m = (Inr y, m))"

text \<open>The storage key \<^verbatim>\<open>videos/{uniqueId}/{fileName}\<close>.\<close>

definition upload_key :: "string \<Rightarrow> string \<Rightarrow> string" where
  "upload_key uniqueId fileName = ''videos/'' @ uniqueId @ ''/'' @ fileName"

text \<open>The identifiers that were filled in, in the order of the document: for an entry
  that lacks its identifier, the identifier it carries afterwards. For a section these
  are its own and then those of its chapters.\<close>

definition filled :: "string \<Rightarrow> json \<Rightarrow> json \<Rightarrow> json option list" where
  "filled key old new = (if lacks_id key old then [get_prop new key] else [])"

definition filled_section :: "json \<Rightarrow> json \<Rightarrow> json option list" where
  "filled_section old new =
     filled ''sectionId'' old new @
     (case (chapters_of old, chapters_of new) of
        (Some cs, Some cs') \<Rightarrow> concat (map2 (filled ''chapterId'') cs cs')
      | _ \<Rightarrow> [])"

definition filled_sections :: "json list \<Rightarrow> json list \<Rightarrow> json option list" where
  "filled_sections secs out = concat (map2 filled_section secs out)"

text \<open>The draws \<open>n\<close>, \<open>n + 1\<close>, ... up to \<open>n'\<close> (excluded) of the generator, each once.\<close>

definition drawn :: "env \<Rightarrow> nat \<Rightarrow> nat \<Rightarrow> json option list" where
  "drawn E n n' = map (\<lambda>k. Some (JStr (uuidv4_src E k))) [n..<n']"

section \<open>A concrete instance\<close>

text \<open>Collaborators and a one-course table to run the handlers on: the course that
  \<^verbatim>\<open>createCourse\<close> makes for teacher \<open>T1\<close>. No run below prints a number beyond the
  exact range, so \<open>demo_number_text\<close> is never consulted; \<open>plain_object_text\<close> is
  \<^verbatim>\<open>String\<close> on objects that have \<^verbatim>\<open>Object.prototype\<close> as their prototype.\<close>

definition demo_uuid :: "nat \<Rightarrow> string" where
  "demo_uuid n = ''uuid-'' @ dec n"

definition demo_sections :: "json list" where
  "demo_sections =
     [JObj [(''sectionTitle'', JStr ''Intro''),
            (''chapters'', JArr [JObj [(''chapterId'', JStr ''ch-1''), (''title'', JStr ''Hello'')],
                                 JObj [(''title'', JStr ''World'')]])]]"

definition demo_sections_text :: string where
  \<open>demo_sections_text =
     ''[{"sectionTitle":"Intro","chapters":[{"chapterId":"ch-1","title":"Hello"},{"title":"World"}]}]''\<close>

definition demo_parse :: "string \<Rightarrow> json option" where
  "demo_parse s = (if s = demo_sections_text then Some (JArr demo_sections) else None)"

definition accept_any :: "jobj \<Rightarrow> bool" where
  "accept_any doc = True"

definition numeric_price :: "jobj \<Rightarrow> bool" where
  "numeric_price doc = (case map_of doc ''price'' of Some (JNum n) \<Rightarrow> True | _ \<Rightarrow> False)"

definition demo_sign :: "string \<Rightarrow> s3Params \<Rightarrow> string + string" where
  "demo_sign operation params = Inr (''https://s3.test/'' @ Bucket params @ ''/'' @ Key params)"

definition demo_number_text :: "int \<Rightarrow> string" where
  "demo_number_text n = ''Infinity''"

definition plain_object_text :: "jobj \<Rightarrow> js_error + string" where
  "plain_object_text fs =
     (if ''toString'' \<in> fst ` set fs then Inl TypeError else Inr ''[object Object]'')"

definition demo_env :: env where
  "demo_env = \<lparr>uuidv4_src = demo_uuid, JSON_parse = demo_parse,
               schema_accepts = accept_any, getSignedUrl = demo_sign,
               number_text = demo_number_text, object_text = plain_object_text\<rparr>"

definition strict_env :: env where
  "strict_env = \<lparr>uuidv4_src = demo_uuid, JSON_parse = demo_parse,
                 schema_accepts = numeric_price, getSignedUrl = demo_sign,
                 number_text = demo_number_text, object_text = plain_object_text\<rparr>"

definition course_c1 :: jobj where
  "course_c1 =
     [(''courseId'', JStr ''c1''),
      (''teacherId'', JStr ''T1''),
      (''teacherName'', JStr ''Alice''),
      (''title'', JStr ''Untitled Course''),
      (''description'', JStr []),
      (''category'', JStr ''Uncategorized''),
      (''image'', JStr []),
      (''price'', JNum 0),
      (''level'', JStr ''Beginner''),
      (''status'', JStr ''Draft''),
      (''sections'', JArr []),
      (''enrollments'', JArr [])]"

definition world0 :: world where
  "world0 = \<lparr>courses = [''c1'' \<mapsto> course_c1], uuid_next = 0\<rparr>"

definition demo_penv :: process_env where
  "demo_penv = \<lparr>S3_BUCKET_NAME = Some ''lms-videos'', CLOUDFRONT_DOMAIN = Some ''https://cdn.test''\<rparr>"

definition unset_penv :: process_env where
  "unset_penv = \<lparr>S3_BUCKET_NAME = None, CLOUDFRONT_DOMAIN = Some ''https://cdn.test''\<rparr>"

definition upload_body :: jobj where
  "upload_body = [(''fileName'', JStr ''intro.mp4''), (''fileType'', JStr ''video/mp4'')]"

definition progress_c1 :: jobj where
  "progress_c1 =
     [(''userId'', JStr ''U1''),
      (''courseId'', JStr ''c1''),
      (''overallProgress'', JNum 50),
      (''sections'', JArr [JObj [(''sectionId'', JStr ''s1''), (''chapters'', JArr [])],
                           JObj [(''sectionId'', JStr ''s2''), (''chapters'', JArr [])]])]"

definition submitted_s1 :: json where
  "submitted_s1 =
     JArr [JObj [(''sectionId'', JStr ''s1''),
                 (''chapters'', JArr [JObj [(''chapterId'', JStr ''ch-1''),
                                            (''completed'', JBool True)]])]]"

definition cache0 :: query_cache where
  "cache0 = [(''U1'', ''c1'') \<mapsto> progress_c1]"

section \<open>Properties of the building blocks\<close>

lemma owner_is_Some: "owner_is x (Some u) \<longleftrightarrow> x = Some (JStr u)"
  by (cases "(x, Some u)" rule: owner_is.cases) auto

lemma world0_c1: "courses world0 ''c1'' = Some course_c1"
  by (simp add: world0_def)

lemma course_c1_teacher: "map_of course_c1 ''teacherId'' = Some (JStr ''T1'')"
  by (simp add: course_c1_def)

subsection \<open>Objects\<close>

lemma map_of_obj_set: "map_of (obj_set k v fs) k' = (if k' = k then Some v else map_of fs k')"
  by (induction fs) auto

lemma keys_obj_set: "fst ` set (obj_set k v fs) = insert k (fst ` set fs)"
  by (induction fs) auto

lemma obj_set_same: "map_of fs k = Some v \<Longrightarrow> obj_set k v fs = fs"
  by (induction fs) (auto split: if_splits)

lemma obj_set_twice: "obj_set k a (obj_set k b fs) = obj_set k a fs"
  by (induction fs) auto

lemma obj_set_new: "k \<notin> fst ` set fs \<Longrightarrow> obj_set k v fs = fs @ [(k, v)]"
  by (induction fs) auto

lemma distinct_obj_set: "distinct (map fst fs) \<Longrightarrow> distinct (map fst (obj_set k v fs))"
  by (induction fs) (auto simp: keys_obj_set)

lemma absent_key: "map_of fs k = None \<longleftrightarrow> k \<notin> fst ` set fs"
  by (simp add: map_of_eq_None_iff)

lemma keys_obj_set_present:
  assumes "map_of fs k = Some x"
  shows "fst ` set (obj_set k v fs) = fst ` set fs"
proof -
  from assms have "k \<in> fst ` set fs"
    by (metis map_of_eq_None_iff option.distinct(1))
  then show ?thesis by (auto simp: keys_obj_set)
qed

text \<open>A field the source does not have is not touched by \<^verbatim>\<open>Object.assign\<close>; a field it
  has is overwritten.\<close>

lemma map_of_object_assign_other:
  "k \<notin> fst ` set src \<Longrightarrow> map_of (object_assign t src) k = map_of t k"
  by (induction src arbitrary: t) (auto simp: map_of_obj_set)

lemma map_of_object_assign:
  "distinct (map fst src) \<Longrightarrow>
   map_of (object_assign t src) k = (case map_of src k of Some v \<Rightarrow> Some v | None \<Rightarrow> map_of t k)"
proof (induction src arbitrary: t)
  case Nil
  then show ?case by simp
next
  case (Cons p ps)
  obtain a b where p: "p = (a, b)" by (cases p)
  from Cons.prems p have d: "distinct (map fst ps)" and a: "a \<notin> fst ` set ps" by auto
  from a have none: "map_of ps a = None" by (simp add: map_of_eq_None_iff)
  have "map_of (object_assign t (p # ps)) k = map_of (object_assign (obj_set a b t) ps) k"
    by (simp add: p)
  also have "\<dots> = (case map_of ps k of Some v \<Rightarrow> Some v | None \<Rightarrow> map_of (obj_set a b t) k)"
    by (rule Cons.IH [OF d])
  also have "\<dots> = (case map_of (p # ps) k of Some v \<Rightarrow> Some v | None \<Rightarrow> map_of t k)"
    using none by (simp add: p map_of_obj_set split: option.splits)
  finally show ?case .
qed

subsection \<open>The steps of updateCourse\<close>

lemma normalize_price_Inl:
  "normalize_price E body = Inl bad \<Longrightarrow> status bad = 400 \<or> status bad = 500"
  by (auto simp: normalize_price_def reply_error_def split: option.splits if_splits sum.splits)

lemma normalize_price_keys:
  assumes "normalize_price E body = Inr upd"
  shows "fst ` set upd = fst ` set body"
proof (cases "map_of body ''price''")
  case None
  with assms show ?thesis by (simp add: normalize_price_def)
next
  case (Some p)
  with assms have "upd = body \<or> (\<exists>v. upd = obj_set ''price'' v body)"
    by (auto simp: normalize_price_def split: if_splits option.splits sum.splits)
  with Some show ?thesis using keys_obj_set_present by blast
qed

lemma update_sections_keys:
  assumes "update_sections E upd1 n = (Inr upd, n')"
  shows "fst ` set upd = fst ` set upd1"
proof (cases "map_of upd1 ''sections''")
  case None
  with assms show ?thesis by (simp add: update_sections_def)
next
  case (Some p)
  with assms have "upd = upd1 \<or> (\<exists>v. upd = obj_set ''sections'' v upd1)"
    by (auto simp: update_sections_def split: if_splits prod.splits sum.splits)
  with Some show ?thesis using keys_obj_set_present by blast
qed

lemma upd_price:
  assumes "update_sections E upd1 n0 = (Inr upd, n)"
  shows "map_of upd ''price'' = map_of upd1 ''price''"
  using assms by (auto simp: update_sections_def map_of_obj_set
      split: option.splits if_splits prod.splits sum.splits)

lemma upd_distinct:
  assumes d: "distinct (map fst body)"
    and p: "normalize_price E body = Inr upd1"
    and s: "update_sections E upd1 n0 = (Inr upd, n)"
  shows "distinct (map fst upd)"
proof -
  from p d have "distinct (map fst upd1)"
    by (auto simp: normalize_price_def distinct_obj_set
        split: option.splits if_splits sum.splits)
  with s show ?thesis
    by (auto simp: update_sections_def distinct_obj_set
        split: option.splits if_splits prod.splits sum.splits)
qed

text \<open>Every run of \<^verbatim>\<open>updateCourse\<close> either leaves the course table as it was, with a
  status other than 200, or went through every step and saved the merged record.\<close>

lemma updateCourse_cases:
  assumes "updateCourse E courseId userId body w = (r, w')"
  shows "(status r \<noteq> 200 \<and> courses w' = courses w)
       \<or> (\<exists>course upd1 upd n k.
           courses w courseId = Some course
         \<and> owner_is (map_of course ''teacherId'') userId
         \<and> normalize_price E body = Inr upd1
         \<and> update_sections E upd1 (uuid_next w) = (Inr upd, n)
         \<and> map_of (object_assign course upd) ''courseId'' = Some (JStr k)
         \<and> schema_accepts E (object_assign course upd)
         \<and> r = reply_data ''Course updated successfully'' (JObj (object_assign course upd))
         \<and> w' = w\<lparr>uuid_next := n, courses := (courses w)(k \<mapsto> object_assign course upd)\<rparr>)"
proof (cases "courses w courseId")
  case None
  with assms show ?thesis by (auto simp: updateCourse_def reply_def)
next
  case (Some course)
  show ?thesis
  proof (cases "owner_is (map_of course ''teacherId'') userId")
    case False
    with Some assms show ?thesis by (auto simp: updateCourse_def reply_def)
  next
    case own: True
    show ?thesis
    proof (cases "normalize_price E body")
      case (Inl bad)
      with Some own assms normalize_price_Inl [OF Inl] show ?thesis
        by (auto simp: updateCourse_def)
    next
      case (Inr upd1)
      obtain res n where us: "update_sections E upd1 (uuid_next w) = (res, n)"
        by (cases "update_sections E upd1 (uuid_next w)")
      show ?thesis
      proof (cases res)
        case (Inl e)
        with Some own Inr us assms show ?thesis
          by (auto simp: updateCourse_def reply_error_def)
      next
        case upd: (Inr upd)
        show ?thesis
        proof (cases "save E (object_assign course upd) (w\<lparr>uuid_next := n\<rparr>)")
          case (Inl e)
          with Some own Inr us upd assms show ?thesis
            by (auto simp: updateCourse_def reply_error_def Let_def)
        next
          case sv: (Inr w2)
          then obtain k where k: "map_of (object_assign course upd) ''courseId'' = Some (JStr k)"
            and acc: "schema_accepts E (object_assign course upd)"
            and w2: "w2 = w\<lparr>uuid_next := n, courses := (courses w)(k \<mapsto> object_assign course upd)\<rparr>"
            by (auto simp: save_def split: option.splits json.splits if_splits)
          from Some own Inr us upd sv assms
          have "r = reply_data ''Course updated successfully'' (JObj (object_assign course upd))"
            and "w' = w2"
            by (auto simp: updateCourse_def Let_def)
          with Some own Inr us upd k acc w2 show ?thesis by blast
        qed
      qed
    qed
  qed
qed

lemma updateCourse_200:
  assumes "updateCourse E courseId userId body w = (r, w')" and "status r = 200"
  shows "\<exists>course upd1 upd n k.
           courses w courseId = Some course
         \<and> owner_is (map_of course ''teacherId'') userId
         \<and> normalize_price E body = Inr upd1
         \<and> update_sections E upd1 (uuid_next w) = (Inr upd, n)
         \<and> map_of (object_assign course upd) ''courseId'' = Some (JStr k)
         \<and> schema_accepts E (object_assign course upd)
         \<and> r = reply_data ''Course updated successfully'' (JObj (object_assign course upd))
         \<and> w' = w\<lparr>uuid_next := n, courses := (courses w)(k \<mapsto> object_assign course upd)\<rparr>"
  using updateCourse_cases [OF assms(1)] assms(2) by blast

text \<open>A successful update returns the record it stored, under the record's own
  \<^verbatim>\<open>courseId\<close>, and the fields the patch does not name are those of the stored course.\<close>

lemma updateCourse_keeps_absent:
  assumes "updateCourse E courseId userId body w = (r, w')" and "status r = 200"
    and "courses w courseId = Some course"
  shows "\<exists>doc k. data r = Some (JObj doc) \<and> courses w' k = Some doc
           \<and> map_of doc ''courseId'' = Some (JStr k)
           \<and> (\<forall>f. map_of body f = None \<longrightarrow> map_of doc f = map_of course f)"
proof -
  from updateCourse_200 [OF assms(1,2)] assms(3)
  obtain upd1 upd n k where
    p: "normalize_price E body = Inr upd1"
    and s: "update_sections E upd1 (uuid_next w) = (Inr upd, n)"
    and k: "map_of (object_assign course upd) ''courseId'' = Some (JStr k)"
    and r: "r = reply_data ''Course updated successfully'' (JObj (object_assign course upd))"
    and w': "w' = w\<lparr>uuid_next := n, courses := (courses w)(k \<mapsto> object_assign course upd)\<rparr>"
    by auto
  have keys: "fst ` set upd = fst ` set body"
    using normalize_price_keys [OF p] update_sections_keys [OF s] by simp
  have "\<forall>f. map_of body f = None \<longrightarrow> map_of (object_assign course upd) f = map_of course f"
    using keys by (simp add: absent_key map_of_object_assign_other)
  with k r w' show ?thesis by (simp add: reply_data_def)
qed

text \<open>The price of the record a successful update stores is the normalized price of the
  patch, or the stored price when the patch has none.\<close>

lemma updateCourse_price:
  assumes "updateCourse E courseId userId body w = (r, w')" and "status r = 200"
    and "distinct (map fst body)"
  shows "\<exists>course upd1 doc k. courses w courseId = Some course
           \<and> normalize_price E body = Inr upd1
           \<and> data r = Some (JObj doc) \<and> courses w' k = Some doc
           \<and> map_of doc ''courseId'' = Some (JStr k)
           \<and> courses w' = (courses w)(k \<mapsto> doc)
           \<and> map_of doc ''price'' =
               (case map_of upd1 ''price'' of Some v \<Rightarrow> Some v | None \<Rightarrow> map_of course ''price'')"
proof -
  from updateCourse_200 [OF assms(1,2)]
  obtain course upd1 upd n k where
    c: "courses w courseId = Some course"
    and p: "normalize_price E body = Inr upd1"
    and s: "update_sections E upd1 (uuid_next w) = (Inr upd, n)"
    and k: "map_of (object_assign course upd) ''courseId'' = Some (JStr k)"
    and r: "r = reply_data ''Course updated successfully'' (JObj (object_assign course upd))"
    and w': "w' = w\<lparr>uuid_next := n, courses := (courses w)(k \<mapsto> object_assign course upd)\<rparr>"
    by auto
  have "map_of (object_assign course upd) ''price'' =
          (case map_of upd ''price'' of Some v \<Rightarrow> Some v | None \<Rightarrow> map_of course ''price'')"
    by (rule map_of_object_assign [OF upd_distinct [OF assms(3) p s]])
  with upd_price [OF s] c p k r w' show ?thesis by (simp add: reply_data_def)
qed

subsection \<open>The price invariant under a write\<close>





subsection \<open>Normalizing sections\<close>

lemma or_uuid_cases:
  assumes "or_uuid E x n = (v, n1)"
  shows "(truthy x \<and> x = Some v \<and> n1 = n) \<or> (\<not> truthy x \<and> v = JStr (uuidv4_src E n) \<and> n1 = Suc n)"
  using assms by (auto simp: or_uuid_def split: option.splits if_splits)

lemma id_rule_mono:
  assumes "id_rule E n n' key a b" and "m \<le> n" and "n' \<le> m'"
  shows "id_rule E m m' key a b"
proof (cases "lacks_id key a")
  case True
  with assms(1) obtain k where "k \<in> {n..<n'}" "get_prop b key = Some (JStr (uuidv4_src E k))"
      "uuidv4_src E k \<noteq> []"
    by (auto simp: id_rule_def)
  moreover from this(1) assms(2,3) have "k \<in> {m..<m'}" by simp
  ultimately show ?thesis using True by (auto simp: id_rule_def)
next
  case False
  with assms(1) show ?thesis by (simp add: id_rule_def)
qed

lemma or_uuid_rule:
  assumes "or_uuid E (get_prop old key) n = (v, n1)" and "\<forall>k. uuidv4_src E k \<noteq> []"
    and "get_prop new key = Some v"
  shows "n \<le> n1 \<and> truthy (Some v) \<and> id_rule E n n1 key old new"
  using or_uuid_cases [OF assms(1)] assms(2,3)
  by (auto simp: id_rule_def lacks_id_def)

lemma array_map_settled:
  "\<forall>y \<in> set ys. settled f y \<Longrightarrow> array_map f ys m = (Inr ys, m)"
  by (induction ys) (auto simp: settled_def)

lemma array_map_rel:
  assumes step: "\<And>x m. x \<in> set xs \<Longrightarrow> \<exists>y m'. f x m = (Inr y, m') \<and> m \<le> m' \<and> R m m' x y \<and> settled f y"
    and mono: "\<And>a b a' b' x y. R a b x y \<Longrightarrow> a' \<le> a \<Longrightarrow> b \<le> b' \<Longrightarrow> R a' b' x y"
  shows "\<exists>ys n'. array_map f xs n = (Inr ys, n') \<and> n \<le> n' \<and> list_all2 (R n n') xs ys
           \<and> (\<forall>y \<in> set ys. settled f y)"
  using step
proof (induction xs arbitrary: n)
  case Nil
  then show ?case by simp
next
  case (Cons x xs)
  from Cons.prems [of x n] obtain y n1 where
    fx: "f x n = (Inr y, n1)" and le1: "n \<le> n1" and r1: "R n n1 x y" and s1: "settled f y"
    by auto
  have "\<And>x m. x \<in> set xs \<Longrightarrow> \<exists>y m'. f x m = (Inr y, m') \<and> m \<le> m' \<and> R m m' x y \<and> settled f y"
    using Cons.prems by simp
  from Cons.IH [OF this, of n1] obtain ys n2 where
    rest: "array_map f xs n1 = (Inr ys, n2)" and le2: "n1 \<le> n2"
    and r2: "list_all2 (R n1 n2) xs ys" and s2: "\<forall>y \<in> set ys. settled f y"
    by blast
  from mono [OF r1, of n n2] le2 have h: "R n n2 x y" by simp
  have "list_all2 (R n n2) xs ys"
  proof (rule list_all2_mono [OF r2])
    fix a b assume "R n1 n2 a b"
    from mono [OF this, of n n2] le1 show "R n n2 a b" by simp
  qed
  with fx rest le1 le2 h s1 s2 show ?case by auto
qed

lemma normalize_chapter_rule:
  assumes ne: "\<forall>k. uuidv4_src E k \<noteq> []" and c: "c \<noteq> JNull"
  shows "\<exists>y m'. normalize_chapter E c m = (Inr y, m') \<and> m \<le> m'
           \<and> id_rule E m m' ''chapterId'' c y \<and> settled (normalize_chapter E) y"
proof -
  obtain v m1 where o: "or_uuid E (get_prop c ''chapterId'') m = (v, m1)"
    by (cases "or_uuid E (get_prop c ''chapterId'') m")
  let ?y = "JObj (obj_set ''chapterId'' v (spread c))"
  have g: "get_prop ?y ''chapterId'' = Some v" by (simp add: map_of_obj_set)
  from or_uuid_rule [OF o ne g]
  have le: "m \<le> m1" and t: "truthy (Some v)" and r: "id_rule E m m1 ''chapterId'' c ?y"
    by simp_all
  from c o have n: "normalize_chapter E c m = (Inr ?y, m1)"
    by (simp add: normalize_chapter_def)
  have "settled (normalize_chapter E) ?y"
    using t by (simp add: settled_def normalize_chapter_def or_uuid_def map_of_obj_set obj_set_twice)
  with n le r show ?thesis by blast
qed

lemma normalize_section_rule:
  assumes ne: "\<forall>k. uuidv4_src E k \<noteq> []"
    and ch: "chapters_of s = Some cs" and nn: "\<forall>c \<in> set cs. c \<noteq> JNull"
  shows "\<exists>y m'. normalize_section E s m = (Inr y, m') \<and> m \<le> m'
           \<and> section_rule E m m' s y \<and> settled (normalize_section E) y"
proof -
  from ch have snn: "s \<noteq> JNull" and gc: "get_prop s ''chapters'' = Some (JArr cs)"
    by (auto simp: chapters_of_def split: option.splits json.splits)
  obtain v m1 where o: "or_uuid E (get_prop s ''sectionId'') m = (v, m1)"
    by (cases "or_uuid E (get_prop s ''sectionId'') m")
  have "\<exists>ys n'. array_map (normalize_chapter E) cs m1 = (Inr ys, n') \<and> m1 \<le> n'
          \<and> list_all2 (\<lambda>a b. id_rule E m1 n' ''chapterId'' a b) cs ys
          \<and> (\<forall>y \<in> set ys. settled (normalize_chapter E) y)"
  proof (rule array_map_rel [where R = "\<lambda>a b. id_rule E a b ''chapterId''"])
    fix x k assume "x \<in> set cs"
    with nn have "x \<noteq> JNull" by simp
    from normalize_chapter_rule [OF ne this, of k]
    show "\<exists>y m'. normalize_chapter E x k = (Inr y, m') \<and> k \<le> m'
           \<and> id_rule E k m' ''chapterId'' x y \<and> settled (normalize_chapter E) y" .
  next
    fix a b a' b' :: nat and x y
    assume "id_rule E a b ''chapterId'' x y" "a' \<le> a" "b \<le> b'"
    then show "id_rule E a' b' ''chapterId'' x y" by (rule id_rule_mono)
  qed
  then obtain cs' m2 where am: "array_map (normalize_chapter E) cs m1 = (Inr cs', m2)"
    and le2: "m1 \<le> m2"
    and rel: "list_all2 (id_rule E m1 m2 ''chapterId'') cs cs'"
    and stl: "\<forall>y \<in> set cs'. settled (normalize_chapter E) y"
    by blast
  let ?fs = "obj_set ''chapters'' (JArr cs') (obj_set ''sectionId'' v (spread s))"
  have gid: "get_prop (JObj ?fs) ''sectionId'' = Some v" by (simp add: map_of_obj_set)
  have gch: "get_prop (JObj ?fs) ''chapters'' = Some (JArr cs')" by (simp add: map_of_obj_set)
  from or_uuid_rule [OF o ne gid]
  have le1: "m \<le> m1" and t: "truthy (Some v)" and r: "id_rule E m m1 ''sectionId'' s (JObj ?fs)"
    by simp_all
  from snn o gc am have n: "normalize_section E s m = (Inr (JObj ?fs), m2)"
    by (simp add: normalize_section_def)
  from id_rule_mono [OF r, of m m2] le2 have r1: "id_rule E m m2 ''sectionId'' s (JObj ?fs)"
    by simp
  have r2: "list_all2 (id_rule E m m2 ''chapterId'') cs cs'"
  proof (rule list_all2_mono [OF rel])
    fix a b assume "id_rule E m1 m2 ''chapterId'' a b"
    from id_rule_mono [OF this, of m m2] le1 show "id_rule E m m2 ''chapterId'' a b" by simp
  qed
  from r1 r2 ch gch have sr: "section_rule E m m2 s (JObj ?fs)"
    by (simp add: section_rule_def chapters_of_def)
  have "settled (normalize_section E) (JObj ?fs)"
    unfolding settled_def
  proof
    fix k
    from t have o': "or_uuid E (get_prop (JObj ?fs) ''sectionId'') k = (v, k)"
      by (simp add: or_uuid_def gid del: get_prop.simps)
    have same: "obj_set ''chapters'' (JArr cs') (obj_set ''sectionId'' v ?fs) = ?fs"
      by (simp add: obj_set_same map_of_obj_set)
    from o' gch array_map_settled [OF stl, of k] same
    show "normalize_section E (JObj ?fs) k = (Inr (JObj ?fs), k)"
      by (simp add: normalize_section_def del: get_prop.simps)
  qed
  with n le1 le2 sr show ?thesis by (intro exI [of _ "JObj ?fs"] exI [of _ m2]) simp
qed

lemma section_rule_mono:
  assumes "section_rule E a b x y" and "a' \<le> a" and "b \<le> b'"
  shows "section_rule E a' b' x y"
proof -
  from assms(1) obtain cs cs' where c: "chapters_of x = Some cs" "chapters_of y = Some cs'"
    and i: "id_rule E a b ''sectionId'' x y"
    and l: "list_all2 (id_rule E a b ''chapterId'') cs cs'"
    by (auto simp: section_rule_def split: option.splits)
  have "list_all2 (id_rule E a' b' ''chapterId'') cs cs'"
  proof (rule list_all2_mono [OF l])
    fix u v assume "id_rule E a b ''chapterId'' u v"
    then show "id_rule E a' b' ''chapterId'' u v" using assms(2,3) by (rule id_rule_mono)
  qed
  with c id_rule_mono [OF i assms(2,3)] show ?thesis by (simp add: section_rule_def)
qed

lemma normalize_sections_rule:
  assumes ne: "\<forall>k. uuidv4_src E k \<noteq> []"
    and ws: "well_shaped secs" and sub: "submitted_as E v secs"
  shows "\<exists>out n'. normalize_sections E v n = (Inr (JArr out), n') \<and> n \<le> n'
           \<and> list_all2 (section_rule E n n') secs out
           \<and> (\<forall>m. normalize_sections E (JArr out) m = (Inr (JArr out), m))"
proof -
  have "\<exists>out n'. array_map (normalize_section E) secs n = (Inr out, n') \<and> n \<le> n'
          \<and> list_all2 (section_rule E n n') secs out
          \<and> (\<forall>y \<in> set out. settled (normalize_section E) y)"
  proof (rule array_map_rel [where R = "section_rule E"])
    fix x m assume "x \<in> set secs"
    with ws obtain cs where "chapters_of x = Some cs" "\<forall>c \<in> set cs. c \<noteq> JNull"
      by (auto simp: well_shaped_def list_all_iff split: option.splits)
    from normalize_section_rule [OF ne this]
    show "\<exists>y m'. normalize_section E x m = (Inr y, m') \<and> m \<le> m' \<and> section_rule E m m' x y
        \<and> settled (normalize_section E) y" .
  next
    fix a b a' b' :: nat and x y
    assume "section_rule E a b x y" "a' \<le> a" "b \<le> b'"
    then show "section_rule E a' b' x y" by (rule section_rule_mono)
  qed
  then obtain out n' where am: "array_map (normalize_section E) secs n = (Inr out, n')"
    and le: "n \<le> n'" and rel: "list_all2 (section_rule E n n') secs out"
    and stl: "\<forall>y \<in> set out. settled (normalize_section E) y"
    by blast
  from sub have "v = JArr secs \<or> (\<exists>s. v = JStr s \<and> s \<noteq> [] \<and> JSON_parse E s = Some (JArr secs))"
    by (auto simp: submitted_as_def split: json.splits)
  with am have "normalize_sections E v n = (Inr (JArr out), n')"
    by (auto simp: normalize_sections_def)
  moreover have "\<forall>m. normalize_sections E (JArr out) m = (Inr (JArr out), m)"
    using array_map_settled [OF stl] by (simp add: normalize_sections_def)
  ultimately show ?thesis using le rel by blast
qed

subsection \<open>The draws behind the identifiers that are filled in\<close>

lemma drawn_empty: "drawn E n n = []"
  by (simp add: drawn_def)

lemma drawn_one: "drawn E n (Suc n) = [Some (JStr (uuidv4_src E n))]"
  by (simp add: drawn_def)

lemma drawn_append:
  assumes "n \<le> m" and "m \<le> k"
  shows "drawn E n m @ drawn E m k = drawn E n k"
proof -
  from assms have "[n..<k] = [n..<m] @ [m..<k]"
    by (metis le_Suc_ex upt_add_eq_append)
  then show ?thesis by (simp add: drawn_def)
qed

lemma drawn_distinct:
  assumes "inj_on (uuidv4_src E) {n..<n'}"
  shows "distinct (drawn E n n')"
proof -
  have "inj_on (\<lambda>k. Some (JStr (uuidv4_src E k))) {n..<n'}"
    using assms by (auto simp: inj_on_def)
  then show ?thesis by (simp add: drawn_def distinct_map)
qed

lemma or_uuid_filled:
  assumes "or_uuid E (get_prop old key) n = (v, n1)" and "get_prop new key = Some v"
  shows "n \<le> n1 \<and> filled key old new = drawn E n n1"
  using or_uuid_cases [OF assms(1)] assms(2)
  by (auto simp: filled_def lacks_id_def drawn_empty drawn_one)

lemma array_map_filled:
  assumes step: "\<And>x m y m'. x \<in> set xs \<Longrightarrow> f x m = (Inr y, m') \<Longrightarrow>
                   m \<le> m' \<and> F x y = drawn E m m'"
    and run: "array_map f xs n = (Inr ys, n')"
  shows "n \<le> n' \<and> concat (map2 F xs ys) = drawn E n n'"
  using step run
proof (induction xs arbitrary: n ys)
  case Nil
  then show ?case by (simp add: drawn_empty)
next
  case (Cons x xs)
  from Cons.prems(2) obtain y n1 zs where fx: "f x n = (Inr y, n1)"
    and rest: "array_map f xs n1 = (Inr zs, n')" and ys: "ys = y # zs"
    by (auto split: prod.splits sum.splits)
  from Cons.prems(1) [of x n y n1] fx have h: "n \<le> n1" "F x y = drawn E n n1" by simp_all
  have "\<And>x m y m'. x \<in> set xs \<Longrightarrow> f x m = (Inr y, m') \<Longrightarrow> m \<le> m' \<and> F x y = drawn E m m'"
  proof -
    fix z m y m' assume "z \<in> set xs" "f z m = (Inr y, m')"
    then show "m \<le> m' \<and> F z y = drawn E m m'" using Cons.prems(1) [of z m y m'] by simp
  qed
  from Cons.IH [OF this rest] have t: "n1 \<le> n'" "concat (map2 F xs zs) = drawn E n1 n'"
    by simp_all
  from h t ys drawn_append [OF h(1) t(1), of E] show ?case by simp
qed

lemma normalize_chapter_filled:
  assumes "normalize_chapter E c m = (Inr y, m')"
  shows "m \<le> m' \<and> filled ''chapterId'' c y = drawn E m m'"
proof -
  obtain v m1 where o: "or_uuid E (get_prop c ''chapterId'') m = (v, m1)"
    by (cases "or_uuid E (get_prop c ''chapterId'') m")
  with assms have y: "y = JObj (obj_set ''chapterId'' v (spread c))" and m: "m' = m1"
    by (auto simp: normalize_chapter_def split: if_splits)
  have "get_prop y ''chapterId'' = Some v" by (simp add: y map_of_obj_set)
  from or_uuid_filled [OF o this] m show ?thesis by simp
qed

lemma normalize_section_filled:
  assumes "normalize_section E s m = (Inr y, m')"
  shows "m \<le> m' \<and> filled_section s y = drawn E m m'"
proof -
  obtain v m1 where o: "or_uuid E (get_prop s ''sectionId'') m = (v, m1)"
    by (cases "or_uuid E (get_prop s ''sectionId'') m")
  from assms o obtain cs cs' where gc: "get_prop s ''chapters'' = Some (JArr cs)"
    and am: "array_map (normalize_chapter E) cs m1 = (Inr cs', m')"
    and y: "y = JObj (obj_set ''chapters'' (JArr cs') (obj_set ''sectionId'' v (spread s)))"
    by (auto simp: normalize_section_def
        split: if_splits option.splits json.splits prod.splits sum.splits)
  have gid: "get_prop y ''sectionId'' = Some v" by (simp add: y map_of_obj_set)
  have gch: "chapters_of y = Some cs'" by (simp add: y chapters_of_def map_of_obj_set)
  from gc have och: "chapters_of s = Some cs" by (simp add: chapters_of_def)
  from or_uuid_filled [OF o gid] have a: "m \<le> m1" "filled ''sectionId'' s y = drawn E m m1"
    by simp_all
  from array_map_filled [of cs "normalize_chapter E" "filled ''chapterId''" E m1 cs' m',
      OF normalize_chapter_filled am]
  have b: "m1 \<le> m'" "concat (map2 (filled ''chapterId'') cs cs') = drawn E m1 m'"
    by simp_all
  from a b och gch drawn_append [OF a(1) b(1), of E] show ?thesis
    by (simp add: filled_section_def)
qed

lemma normalize_sections_filled:
  assumes "normalize_sections E v n = (Inr (JArr out), n')" and "submitted_as E v secs"
  shows "filled_sections secs out = drawn E n n'"
proof -
  from assms(2) have "v = JArr secs \<or> (\<exists>s. v = JStr s \<and> s \<noteq> [] \<and> JSON_parse E s = Some (JArr secs))"
    by (auto simp: submitted_as_def split: json.splits)
  with assms(1) have am: "array_map (normalize_section E) secs n = (Inr out, n')"
    by (auto simp: normalize_sections_def split: prod.splits sum.splits)
  from array_map_filled [of secs "normalize_section E" filled_section E n out n',
      OF normalize_section_filled am]
  show ?thesis by (simp add: filled_sections_def)
qed

subsection \<open>Sections that cannot be normalized\<close>

lemma normalize_section_lacking:
  "lacks_chapters s \<Longrightarrow> \<exists>e m'. normalize_section E s m = (Inl e, m')"
  by (auto simp: normalize_section_def lacks_chapters_def chapters_of_def Let_def
      split: prod.splits option.splits json.splits)

lemma array_map_fails:
  assumes "\<exists>x \<in> set xs. \<forall>m. \<exists>e m'. f x m = (Inl e, m')"
  shows "\<exists>e n'. array_map f xs n = (Inl e, n')"
  using assms
proof (induction xs arbitrary: n)
  case Nil
  then show ?case by simp
next
  case (Cons x xs)
  obtain res n1 where fx: "f x n = (res, n1)" by (cases "f x n")
  show ?case
  proof (cases res)
    case (Inl e)
    with fx show ?thesis by simp
  next
    case (Inr y)
    with fx Cons.prems have "\<exists>x \<in> set xs. \<forall>m. \<exists>e m'. f x m = (Inl e, m')"
      by (metis Pair_inject set_ConsD sum.distinct(1))
    from Cons.IH [OF this, of n1] obtain e n2 where "array_map f xs n1 = (Inl e, n2)" by blast
    with fx Inr show ?thesis by simp
  qed
qed

lemma normalize_sections_lacking:
  assumes "submitted_as E v secs" and "\<exists>s \<in> set secs. lacks_chapters s"
  shows "\<exists>e n'. normalize_sections E v n = (Inl e, n')"
proof -
  from assms(2) have "\<exists>x \<in> set secs. \<forall>m. \<exists>e m'. normalize_section E x m = (Inl e, m')"
    using normalize_section_lacking by blast
  from array_map_fails [OF this, of n]
  obtain e n' where f: "array_map (normalize_section E) secs n = (Inl e, n')" by blast
  from assms(1) have "v = JArr secs \<or> (\<exists>s. v = JStr s \<and> s \<noteq> [] \<and> JSON_parse E s = Some (JArr secs))"
    by (auto simp: submitted_as_def split: json.splits)
  with f show ?thesis by (auto simp: normalize_sections_def)
qed

lemma submitted_truthy: "submitted_as E v secs \<Longrightarrow> truthy (Some v)"
  by (auto simp: submitted_as_def split: json.splits)

lemma normalize_price_sections:
  "normalize_price E body = Inr upd1 \<Longrightarrow> map_of upd1 ''sections'' = map_of body ''sections''"
  by (auto simp: normalize_price_def map_of_obj_set split: option.splits if_splits sum.splits)

section \<open>Ownership: update and delete by another caller\<close>

text \<open>
  Claim C2. When the course exists and the verified identity of the caller is not the
  stored \<^verbatim>\<open>teacherId\<close>, \<^verbatim>\<open>updateCourse\<close> and \<^verbatim>\<open>deleteCourse\<close> both answer 403 and
  return the state they were given: nothing is written to the course table.
\<close>

theorem forbidden_leaves_store:
  assumes "courses w courseId = Some course"
    and "map_of course ''teacherId'' \<noteq> Some (JStr caller)"
  shows "status (fst (updateCourse E courseId (Some caller) body w)) = 403
         \<and> snd (updateCourse E courseId (Some caller) body w) = w
         \<and> status (fst (deleteCourse courseId (Some caller) w)) = 403
         \<and> snd (deleteCourse courseId (Some caller) w) = w"
  using assms by (simp add: updateCourse_def deleteCourse_def owner_is_Some reply_def)

theorem forbidden_leaves_store_witness:
  "status (fst (updateCourse demo_env ''c1'' (Some ''T2'') [(''price'', JStr ''10'')] world0)) = 403
   \<and> snd (updateCourse demo_env ''c1'' (Some ''T2'') [(''price'', JStr ''10'')] world0) = world0
   \<and> status (fst (deleteCourse ''c1'' (Some ''T2'') world0)) = 403
   \<and> snd (deleteCourse ''c1'' (Some ''T2'') world0) = world0"
proof -
  have h: "map_of course_c1 ''teacherId'' \<noteq> Some (JStr ''T2'')"
    by (simp add: course_c1_teacher)
  show ?thesis
    using forbidden_leaves_store [OF world0_c1 h, of demo_env "[(''price'', JStr ''10'')]"]
    by simp
qed

section \<open>Deleting a course\<close>

text \<open>
  Claim C8. Deleting a course that is not in the table answers 404 and changes nothing.
  Deleting a course that is there, as its owner, answers 200 with the record as it was
  stored, removes exactly that record, and a \<^verbatim>\<open>getCourse\<close> of the same identifier
  afterwards answers 404.
\<close>

theorem delete_course_contract:
  "(courses w courseId = None \<longrightarrow>
      status (fst (deleteCourse courseId userId w)) = 404
      \<and> snd (deleteCourse courseId userId w) = w)
   \<and> (\<forall>course. courses w courseId = Some course
          \<and> owner_is (map_of course ''teacherId'') userId \<longrightarrow>
        (\<exists>r w'. deleteCourse courseId userId w = (r, w')
          \<and> status r = 200
          \<and> data r = Some (JObj course)
          \<and> courses w' courseId = None
          \<and> status (getCourse courseId w') = 404
          \<and> (\<forall>k. k \<noteq> courseId \<longrightarrow> courses w' k = courses w k)))"
  by (simp add: deleteCourse_def getCourse_def reply_def reply_data_def)

theorem delete_course_contract_witness:
  "status (fst (deleteCourse ''nope'' (Some ''T1'') world0)) = 404
   \<and> (\<exists>r w'. deleteCourse ''c1'' (Some ''T1'') world0 = (r, w')
          \<and> status r = 200
          \<and> data r = Some (JObj course_c1)
          \<and> status (getCourse ''c1'' w') = 404)"
proof -
  have a: "courses world0 ''nope'' = None" by (simp add: world0_def)
  have b: "owner_is (map_of course_c1 ''teacherId'') (Some ''T1'')"
    by (simp add: course_c1_teacher)
  from delete_course_contract [of world0 "''nope''" "Some ''T1''"] a
  have one: "status (fst (deleteCourse ''nope'' (Some ''T1'') world0)) = 404"
    by simp
  from delete_course_contract [of world0 "''c1''" "Some ''T1''"] world0_c1 b
  have two: "\<exists>r w'. deleteCourse ''c1'' (Some ''T1'') world0 = (r, w')
          \<and> status r = 200
          \<and> data r = Some (JObj course_c1)
          \<and> status (getCourse ''c1'' w') = 404"
    by blast
  from one two show ?thesis by simp
qed

section \<open>The owner fields under an update\<close>

text \<open>
  Claim C5, as stated, fails: \<^verbatim>\<open>updateData\<close> is a copy of the whole request body and
  \<^verbatim>\<open>Object.assign(course, updateData)\<close> writes every field of it, the owner fields
  included. The owner \<open>T1\<close> of course \<open>c1\<close> sends \<^verbatim>\<open>{teacherId: "T2"}\<close>: the update
  answers 200 and the stored \<^verbatim>\<open>teacherId\<close> is \<open>T2\<close>.
\<close>

theorem owner_field_overwritten:
  "map_of course_c1 ''teacherId'' = Some (JStr ''T1'')
   \<and> status (fst (updateCourse demo_env ''c1'' (Some ''T1'') [(''teacherId'', JStr ''T2'')] world0)) = 200
   \<and> courses (snd (updateCourse demo_env ''c1'' (Some ''T1'') [(''teacherId'', JStr ''T2'')] world0)) ''c1''
       = Some (obj_set ''teacherId'' (JStr ''T2'') course_c1)
   \<and> map_of (obj_set ''teacherId'' (JStr ''T2'') course_c1) ''teacherId'' = Some (JStr ''T2'')"
  by code_simp

text \<open>
  Claim C5, amended. A successful update whose patch has none of the fields
  \<^verbatim>\<open>courseId\<close>, \<^verbatim>\<open>teacherId\<close> and \<^verbatim>\<open>teacherName\<close> stores, under the same
  \<^verbatim>\<open>courseId\<close>, a record that holds these three fields as they were before the call.
  (The stored course carries its own key in its \<^verbatim>\<open>courseId\<close> field.)
\<close>

theorem owner_fields_kept:
  assumes "courses w courseId = Some course"
    and "map_of course ''courseId'' = Some (JStr courseId)"
    and "map_of body ''courseId'' = None"
    and "map_of body ''teacherId'' = None"
    and "map_of body ''teacherName'' = None"
    and "updateCourse E courseId userId body w = (r, w')"
    and "status r = 200"
  shows "\<exists>doc. courses w' courseId = Some doc
           \<and> data r = Some (JObj doc)
           \<and> map_of doc ''courseId'' = map_of course ''courseId''
           \<and> map_of doc ''teacherId'' = map_of course ''teacherId''
           \<and> map_of doc ''teacherName'' = map_of course ''teacherName''"
proof -
  from updateCourse_keeps_absent [OF assms(6,7,1)]
  obtain doc k where d: "data r = Some (JObj doc)" "courses w' k = Some doc"
      "map_of doc ''courseId'' = Some (JStr k)"
      "\<forall>f. map_of body f = None \<longrightarrow> map_of doc f = map_of course f"
    by blast
  from d(4) assms(3,4,5) have same: "map_of doc ''courseId'' = map_of course ''courseId''"
      "map_of doc ''teacherId'' = map_of course ''teacherId''"
      "map_of doc ''teacherName'' = map_of course ''teacherName''"
    by simp_all
  from same(1) d(3) assms(2) have "k = courseId" by simp
  with d same show ?thesis by simp
qed

theorem owner_fields_kept_witness:
  "status (fst (updateCourse demo_env ''c1'' (Some ''T1'') [(''title'', JStr ''Algebra'')] world0)) = 200
   \<and> (\<exists>doc. courses (snd (updateCourse demo_env ''c1'' (Some ''T1'')
                             [(''title'', JStr ''Algebra'')] world0)) ''c1'' = Some doc
          \<and> map_of doc ''courseId'' = Some (JStr ''c1'')
          \<and> map_of doc ''teacherId'' = Some (JStr ''T1'')
          \<and> map_of doc ''teacherName'' = Some (JStr ''Alice''))"
proof -
  let ?body = "[(''title'', JStr ''Algebra'')]"
  let ?u = "updateCourse demo_env ''c1'' (Some ''T1'') ?body world0"
  have key: "map_of course_c1 ''courseId'' = Some (JStr ''c1'')" by (simp add: course_c1_def)
  have name: "map_of course_c1 ''teacherName'' = Some (JStr ''Alice'')"
    by (simp add: course_c1_def)
  have b: "map_of ?body ''courseId'' = None" "map_of ?body ''teacherId'' = None"
    "map_of ?body ''teacherName'' = None" by simp_all
  have run: "?u = (fst ?u, snd ?u)" by simp
  have ok: "status (fst ?u) = 200" by code_simp
  from owner_fields_kept [OF world0_c1 key b run ok] ok key name course_c1_teacher
  show ?thesis by auto
qed

section \<open>The price of a patch\<close>

text \<open>
  Claim C3, as stated, fails for the empty string. The guard \<^verbatim>\<open>if (updateData.price)\<close>
  is a truthiness test, so an empty price string skips \<^verbatim>\<open>parseInt\<close> and the check of
  its result: \<^verbatim>\<open>parseInt("")\<close> is \<^verbatim>\<open>NaN\<close>, yet the handler does not answer 400. The
  empty string is merged into the record; the call answers 200 when the store takes the
  record, and 500 when the schema wants a number.
\<close>

theorem empty_price_not_validated:
  "parseInt [] = None
   \<and> status (fst (updateCourse demo_env ''c1'' (Some ''T1'') [(''price'', JStr [])] world0)) = 200
   \<and> courses (snd (updateCourse demo_env ''c1'' (Some ''T1'') [(''price'', JStr [])] world0)) ''c1''
       = Some (obj_set ''price'' (JStr []) course_c1)
   \<and> status (fst (updateCourse strict_env ''c1'' (Some ''T1'') [(''price'', JStr [])] world0)) = 500"
  by code_simp

text \<open>
  Claim C3, amended. For an update of an existing course by its owner whose patch holds a
  non-empty price string: if \<^verbatim>\<open>parseInt\<close> finds no integer at the start of the string, the
  answer is 400 with the message \<^verbatim>\<open>Invalid price format\<close> and the state is the one
  given. If \<^verbatim>\<open>parseInt\<close> reads the integer \<open>n\<close>, the price step lets the patch through
  with the price \<open>100 n\<close> and the answer is not 400. With \<open>100 n\<close> in the range a double
  holds exactly: when the patch has no sections and \<^verbatim>\<open>save\<close> takes the merged record,
  the answer is 200 and the record stored and returned has the price \<open>100 n\<close>; and
  whenever the update answers 200, the record it stores and returns has the price
  \<open>100 n\<close>.
\<close>

theorem price_string_normalized:
  assumes "courses w courseId = Some course"
    and "owner_is (map_of course ''teacherId'') userId"
    and "one_field_per_key body"
    and "map_of body ''price'' = Some (JStr s)"
    and "s \<noteq> []"
  shows "(parseInt s = None \<longrightarrow>
            updateCourse E courseId userId body w =
              (reply_error 400 ''Invalid price format'' (ErrText ''Price must be a valid number''), w))
       \<and> (\<forall>n. parseInt s = Some n \<longrightarrow>
            normalize_price E body = Inr (obj_set ''price'' (JNum (n * 100)) body)
            \<and> status (fst (updateCourse E courseId userId body w)) \<noteq> 400)
       \<and> (\<forall>n k. parseInt s = Some n \<and> safe_integer (n * 100)
              \<and> map_of body ''sections'' = None
              \<and> map_of (object_assign course (obj_set ''price'' (JNum (n * 100)) body)) ''courseId''
                   = Some (JStr k)
              \<and> schema_accepts E (object_assign course (obj_set ''price'' (JNum (n * 100)) body))
              \<longrightarrow>
            status (fst (updateCourse E courseId userId body w)) = 200
            \<and> data (fst (updateCourse E courseId userId body w))
                 = Some (JObj (object_assign course (obj_set ''price'' (JNum (n * 100)) body)))
            \<and> courses (snd (updateCourse E courseId userId body w)) k
                 = Some (object_assign course (obj_set ''price'' (JNum (n * 100)) body))
            \<and> map_of (object_assign course (obj_set ''price'' (JNum (n * 100)) body)) ''price''
                 = Some (JNum (100 * n)))
       \<and> (\<forall>n r w'. parseInt s = Some n \<and> safe_integer (n * 100)
              \<and> updateCourse E courseId userId body w = (r, w') \<and> status r = 200 \<longrightarrow>
            (\<exists>doc k. data r = Some (JObj doc) \<and> courses w' k = Some doc
               \<and> map_of doc ''courseId'' = Some (JStr k)
               \<and> map_of doc ''price'' = Some (JNum (100 * n))))"
proof (intro conjI allI impI)
  assume "parseInt s = None"
  with assms show "updateCourse E courseId userId body w =
      (reply_error 400 ''Invalid price format'' (ErrText ''Price must be a valid number''), w)"
    by (simp add: updateCourse_def normalize_price_def)
next
  fix n assume n: "parseInt s = Some n"
  with assms(4,5)
  show p: "normalize_price E body = Inr (obj_set ''price'' (JNum (n * 100)) body)"
    by (simp add: normalize_price_def)
  obtain r w' where u: "updateCourse E courseId userId body w = (r, w')"
    by (cases "updateCourse E courseId userId body w")
  from u assms(1,2) p have "status r = 500 \<or> status r = 200"
    by (auto simp: updateCourse_def reply_error_def reply_data_def Let_def
        split: prod.splits sum.splits)
  with u show "status (fst (updateCourse E courseId userId body w)) \<noteq> 400" by auto
next
  fix n k
  let ?upd = "obj_set ''price'' (JNum (n * 100)) body"
  assume a: "parseInt s = Some n \<and> safe_integer (n * 100)
              \<and> map_of body ''sections'' = None
              \<and> map_of (object_assign course ?upd) ''courseId'' = Some (JStr k)
              \<and> schema_accepts E (object_assign course ?upd)"
  from a assms(4,5) have p: "normalize_price E body = Inr ?upd"
    by (simp add: normalize_price_def)
  from a have "map_of ?upd ''sections'' = None" by (simp add: map_of_obj_set)
  then have us: "update_sections E ?upd (uuid_next w) = (Inr ?upd, uuid_next w)"
    by (simp add: update_sections_def)
  from a have sv: "save E (object_assign course ?upd) (w\<lparr>uuid_next := uuid_next w\<rparr>)
      = Inr (w\<lparr>uuid_next := uuid_next w,
                courses := (courses w)(k \<mapsto> object_assign course ?upd)\<rparr>)"
    by (simp add: save_def)
  from assms(1,2) p us sv
  have u: "updateCourse E courseId userId body w =
      (reply_data ''Course updated successfully'' (JObj (object_assign course ?upd)),
       w\<lparr>uuid_next := uuid_next w, courses := (courses w)(k \<mapsto> object_assign course ?upd)\<rparr>)"
    by (simp add: updateCourse_def Let_def)
  from assms(3) have "distinct (map fst ?upd)"
    by (simp add: one_field_per_key_def distinct_obj_set)
  from map_of_object_assign [OF this, of course "''price''"]
  have pr: "map_of (object_assign course ?upd) ''price'' = Some (JNum (100 * n))"
    by (simp add: map_of_obj_set mult.commute)
  from u show "status (fst (updateCourse E courseId userId body w)) = 200"
    by (simp add: reply_data_def)
  from u show "data (fst (updateCourse E courseId userId body w))
      = Some (JObj (object_assign course ?upd))"
    by (simp add: reply_data_def)
  from u show "courses (snd (updateCourse E courseId userId body w)) k
      = Some (object_assign course ?upd)"
    by simp
  from pr show "map_of (object_assign course ?upd) ''price'' = Some (JNum (100 * n))" .
next
  fix n r w'
  assume a: "parseInt s = Some n \<and> safe_integer (n * 100)
              \<and> updateCourse E courseId userId body w = (r, w') \<and> status r = 200"
  from assms(3) have d: "distinct (map fst body)" by (simp add: one_field_per_key_def)
  from a assms(4,5) have p: "normalize_price E body = Inr (obj_set ''price'' (JNum (n * 100)) body)"
    by (simp add: normalize_price_def)
  from a updateCourse_price [OF _ _ d, of E courseId userId w r w'] p
  show "\<exists>doc k. data r = Some (JObj doc) \<and> courses w' k = Some doc
               \<and> map_of doc ''courseId'' = Some (JStr k)
               \<and> map_of doc ''price'' = Some (JNum (100 * n))"
    by (auto simp: map_of_obj_set mult.commute)
qed

theorem price_string_normalized_witness:
  "updateCourse demo_env ''c1'' (Some ''T1'') [(''price'', JStr ''abc'')] world0 =
     (reply_error 400 ''Invalid price format'' (ErrText ''Price must be a valid number''), world0)
   \<and> parseInt ''25'' = Some 25
   \<and> status (fst (updateCourse demo_env ''c1'' (Some ''T1'') [(''price'', JStr ''25'')] world0)) = 200
   \<and> courses (snd (updateCourse demo_env ''c1'' (Some ''T1'') [(''price'', JStr ''25'')] world0))
        ''c1''
       = Some (object_assign course_c1 (obj_set ''price'' (JNum (25 * 100)) [(''price'', JStr ''25'')]))
   \<and> map_of (object_assign course_c1
               (obj_set ''price'' (JNum (25 * 100)) [(''price'', JStr ''25'')])) ''price''
       = Some (JNum 2500)"
proof -
  let ?body = "[(''price'', JStr ''25'')]"
  let ?u = "updateCourse demo_env ''c1'' (Some ''T1'') ?body world0"
  let ?doc = "object_assign course_c1 (obj_set ''price'' (JNum (25 * 100)) ?body)"
  have own: "owner_is (map_of course_c1 ''teacherId'') (Some ''T1'')"
    by (simp add: course_c1_teacher)
  have nan: "parseInt ''abc'' = None" by code_simp
  have num: "parseInt ''25'' = Some 25" by code_simp
  have safe: "safe_integer (25 * 100)" by (simp add: safe_integer_def)
  have nosec: "map_of ?body ''sections'' = None" by simp
  have key: "map_of ?doc ''courseId'' = Some (JStr ''c1'')" by code_simp
  have acc: "schema_accepts demo_env ?doc" by (simp add: demo_env_def accept_any_def)
  from price_string_normalized [OF world0_c1 own, of "[(''price'', JStr ''abc'')]" "''abc''" demo_env]
    nan
  have one: "updateCourse demo_env ''c1'' (Some ''T1'') [(''price'', JStr ''abc'')] world0 =
     (reply_error 400 ''Invalid price format'' (ErrText ''Price must be a valid number''), world0)"
    by (simp add: one_field_per_key_def)
  have b: "one_field_per_key ?body" by (simp add: one_field_per_key_def)
  have m: "map_of ?body ''price'' = Some (JStr ''25'')" by simp
  have ne: "''25'' \<noteq> []" by simp
  note t = price_string_normalized [OF world0_c1 own b m ne, where E = demo_env]
  from t [THEN conjunct2, THEN conjunct2, THEN conjunct1, rule_format, of 25 "''c1''"]
    num safe nosec key acc
  have two: "status (fst ?u) = 200 \<and> courses (snd ?u) ''c1'' = Some ?doc
      \<and> map_of ?doc ''price'' = Some (JNum (100 * 25))"
    by blast
  from one num two show ?thesis by simp
qed

section \<open>The sign of the stored price\<close>




section \<open>Identifiers of sections and chapters\<close>

text \<open>
  Claim C1, as stated, fails: it speaks of every sections list, and the callback
  dereferences \<^verbatim>\<open>section.chapters\<close> unchecked. A list with the one section
  \<^verbatim>\<open>{sectionTitle: "Intro"}\<close>, which lacks a \<^verbatim>\<open>sectionId\<close> and has no chapters array,
  makes \<^verbatim>\<open>undefined.map\<close> throw: the update answers 500, the stored sections stay the
  empty list, and the section is assigned no identifier.
\<close>

theorem section_without_chapters_gets_no_id:
  "lacks_id ''sectionId'' (JObj [(''sectionTitle'', JStr ''Intro'')])
   \<and> status (fst (updateCourse demo_env ''c1'' (Some ''T1'')
        [(''sections'', JArr [JObj [(''sectionTitle'', JStr ''Intro'')]])] world0)) = 500
   \<and> error (fst (updateCourse demo_env ''c1'' (Some ''T1'')
        [(''sections'', JArr [JObj [(''sectionTitle'', JStr ''Intro'')]])] world0))
       = Some (ErrThrown TypeError)
   \<and> courses (snd (updateCourse demo_env ''c1'' (Some ''T1'')
        [(''sections'', JArr [JObj [(''sectionTitle'', JStr ''Intro'')]])] world0)) ''c1''
       = Some course_c1
   \<and> map_of course_c1 ''sections'' = Some (JArr [])"
  by code_simp

text \<open>The sections step on a patch whose sections are well shaped: it succeeds, applies
  the identifier rule, and maps its own result to itself without drawing.\<close>

lemma update_sections_rule:
  assumes "\<forall>k. uuidv4_src E k \<noteq> []" and "well_shaped secs"
    and "map_of updateData ''sections'' = Some v" and "submitted_as E v secs"
  shows "\<exists>out n'. update_sections E updateData n =
                     (Inr (obj_set ''sections'' (JArr out) updateData), n')
           \<and> list_all2 (section_rule E n n') secs out
           \<and> filled_sections secs out = drawn E n n'
           \<and> update_sections E (obj_set ''sections'' (JArr out) updateData) n' =
                     (Inr (obj_set ''sections'' (JArr out) updateData), n')"
proof -
  from normalize_sections_rule [OF assms(1,2,4), of n]
  obtain out n' where ns: "normalize_sections E v n = (Inr (JArr out), n')"
    and rel: "list_all2 (section_rule E n n') secs out"
    and again: "\<forall>m. normalize_sections E (JArr out) m = (Inr (JArr out), m)"
    by blast
  from ns assms(3) submitted_truthy [OF assms(4)]
  have one: "update_sections E updateData n =
               (Inr (obj_set ''sections'' (JArr out) updateData), n')"
    by (simp add: update_sections_def)
  from again have two: "update_sections E (obj_set ''sections'' (JArr out) updateData) n' =
                     (Inr (obj_set ''sections'' (JArr out) updateData), n')"
    by (simp add: update_sections_def map_of_obj_set obj_set_twice)
  from normalize_sections_filled [OF ns assms(4)]
  have dr: "filled_sections secs out = drawn E n n'" .
  from one rel dr two show ?thesis by blast
qed

lemma demo_uuid_nonempty: "\<forall>k. uuidv4_src demo_env k \<noteq> []"
  by (simp add: demo_env_def demo_uuid_def)

lemma demo_sections_shaped: "well_shaped demo_sections"
  by code_simp

lemma demo_text_submitted: "submitted_as demo_env (JStr demo_sections_text) demo_sections"
  by (simp add: submitted_as_def demo_env_def demo_parse_def demo_sections_text_def)

text \<open>
  Claim C1, amended. Let the patch hold a sections list, structured or as a JSON text, in
  which every section has an array of chapters and no chapter is \<^verbatim>\<open>null\<close>, and let
  \<^verbatim>\<open>uuidv4\<close> return non-empty strings. Then the sections step succeeds; every section
  and chapter whose identifier is absent or falsy carries a non-empty identifier drawn
  from \<^verbatim>\<open>uuidv4\<close> during the step, every other one carries the identifier it came with.
  Each entry that lacks its identifier gets a draw of its own: the identifiers filled
  in, read in the order of the document, are the consecutive draws of the step, each
  used once, so they are pairwise different when the generator does not repeat itself.
  Submitting the result again returns it as it is and draws no identifier. When the
  update answers 200, the record it stores holds these normalized sections.
\<close>

theorem sections_identifiers:
  assumes "\<forall>k. uuidv4_src E k \<noteq> []" and "well_shaped secs" and "submitted_as E v secs"
  shows "(\<forall>updateData n. map_of updateData ''sections'' = Some v \<longrightarrow>
            (\<exists>out n'. update_sections E updateData n =
                         (Inr (obj_set ''sections'' (JArr out) updateData), n')
               \<and> list_all2 (section_rule E n n') secs out
               \<and> filled_sections secs out = drawn E n n'
               \<and> (inj_on (uuidv4_src E) {n..<n'} \<longrightarrow> distinct (filled_sections secs out))
               \<and> update_sections E (obj_set ''sections'' (JArr out) updateData) n' =
                         (Inr (obj_set ''sections'' (JArr out) updateData), n')))
       \<and> (\<forall>courseId userId body w r w'.
            one_field_per_key body \<and> map_of body ''sections'' = Some v
            \<and> updateCourse E courseId userId body w = (r, w') \<and> status r = 200 \<longrightarrow>
            (\<exists>doc k out. data r = Some (JObj doc) \<and> courses w' k = Some doc
               \<and> map_of doc ''sections'' = Some (JArr out)
               \<and> list_all2 (section_rule E (uuid_next w) (uuid_next w')) secs out
               \<and> filled_sections secs out = drawn E (uuid_next w) (uuid_next w')))"
proof (intro conjI allI impI)
  fix updateData n
  assume "map_of updateData ''sections'' = Some v"
  from update_sections_rule [OF assms(1,2) this assms(3), of n]
  obtain out n' where r: "update_sections E updateData n =
                         (Inr (obj_set ''sections'' (JArr out) updateData), n')"
      "list_all2 (section_rule E n n') secs out"
      "filled_sections secs out = drawn E n n'"
      "update_sections E (obj_set ''sections'' (JArr out) updateData) n' =
                         (Inr (obj_set ''sections'' (JArr out) updateData), n')"
    by blast
  from r(3) have "inj_on (uuidv4_src E) {n..<n'} \<longrightarrow> distinct (filled_sections secs out)"
    by (simp add: drawn_distinct)
  with r
  show "\<exists>out n'. update_sections E updateData n =
                         (Inr (obj_set ''sections'' (JArr out) updateData), n')
               \<and> list_all2 (section_rule E n n') secs out
               \<and> filled_sections secs out = drawn E n n'
               \<and> (inj_on (uuidv4_src E) {n..<n'} \<longrightarrow> distinct (filled_sections secs out))
               \<and> update_sections E (obj_set ''sections'' (JArr out) updateData) n' =
                         (Inr (obj_set ''sections'' (JArr out) updateData), n')"
    by blast
next
  fix courseId userId body w r w'
  assume a: "one_field_per_key body \<and> map_of body ''sections'' = Some v
            \<and> updateCourse E courseId userId body w = (r, w') \<and> status r = 200"
  then have d: "distinct (map fst body)" by (simp add: one_field_per_key_def)
  from a updateCourse_200 [of E courseId userId body w r w']
  obtain course upd1 upd n k where
    p: "normalize_price E body = Inr upd1"
    and s: "update_sections E upd1 (uuid_next w) = (Inr upd, n)"
    and k: "map_of (object_assign course upd) ''courseId'' = Some (JStr k)"
    and r: "r = reply_data ''Course updated successfully'' (JObj (object_assign course upd))"
    and w': "w' = w\<lparr>uuid_next := n, courses := (courses w)(k \<mapsto> object_assign course upd)\<rparr>"
    by blast
  from a p have "map_of upd1 ''sections'' = Some v" by (simp add: normalize_price_sections)
  from update_sections_rule [OF assms(1,2) this assms(3), of "uuid_next w"] s
  obtain out where u: "upd = obj_set ''sections'' (JArr out) upd1"
    and rel: "list_all2 (section_rule E (uuid_next w) n) secs out"
    and dr: "filled_sections secs out = drawn E (uuid_next w) n"
    by auto
  have "map_of (object_assign course upd) ''sections'' =
          (case map_of upd ''sections'' of Some x \<Rightarrow> Some x | None \<Rightarrow> map_of course ''sections'')"
    by (rule map_of_object_assign [OF upd_distinct [OF d p s]])
  with u have "map_of (object_assign course upd) ''sections'' = Some (JArr out)"
    by (simp add: map_of_obj_set)
  with r w' rel dr
  show "\<exists>doc k out. data r = Some (JObj doc) \<and> courses w' k = Some doc
               \<and> map_of doc ''sections'' = Some (JArr out)
               \<and> list_all2 (section_rule E (uuid_next w) (uuid_next w')) secs out
               \<and> filled_sections secs out = drawn E (uuid_next w) (uuid_next w')"
    by (auto simp: reply_data_def)
qed

theorem sections_identifiers_witness:
  "status (fst (updateCourse demo_env ''c1'' (Some ''T1'')
                  [(''sections'', JStr demo_sections_text)] world0)) = 200
   \<and> uuid_next (snd (updateCourse demo_env ''c1'' (Some ''T1'')
                  [(''sections'', JStr demo_sections_text)] world0)) = 2
   \<and> drawn demo_env 0 2 = [Some (JStr ''uuid-0''), Some (JStr ''uuid-1'')]
   \<and> (\<exists>doc k out.
         courses (snd (updateCourse demo_env ''c1'' (Some ''T1'')
                         [(''sections'', JStr demo_sections_text)] world0)) k = Some doc
       \<and> map_of doc ''sections'' = Some (JArr out)
       \<and> list_all2 (section_rule demo_env 0 2) demo_sections out
       \<and> filled_sections demo_sections out = drawn demo_env 0 2)"
proof -
  let ?body = "[(''sections'', JStr demo_sections_text)]"
  let ?u = "updateCourse demo_env ''c1'' (Some ''T1'') ?body world0"
  have run: "?u = (fst ?u, snd ?u)" by simp
  have ok: "status (fst ?u) = 200" by code_simp
  have two: "uuid_next (snd ?u) = 2" by code_simp
  have dr: "drawn demo_env 0 2 = [Some (JStr ''uuid-0''), Some (JStr ''uuid-1'')]"
    by code_simp
  have b: "one_field_per_key ?body" by (simp add: one_field_per_key_def)
  have m: "map_of ?body ''sections'' = Some (JStr demo_sections_text)" by simp
  have z: "uuid_next world0 = 0" by (simp add: world0_def)
  note t = sections_identifiers [OF demo_uuid_nonempty demo_sections_shaped demo_text_submitted]
  from t [THEN conjunct2, rule_format, of ?body "''c1''" "Some ''T1''" world0 "fst ?u" "snd ?u"]
    b m run ok
  have "\<exists>doc k out. data (fst ?u) = Some (JObj doc) \<and> courses (snd ?u) k = Some doc
               \<and> map_of doc ''sections'' = Some (JArr out)
               \<and> list_all2 (section_rule demo_env (uuid_next world0) (uuid_next (snd ?u)))
                    demo_sections out
               \<and> filled_sections demo_sections out
                    = drawn demo_env (uuid_next world0) (uuid_next (snd ?u))"
    by blast
  with ok two dr z show ?thesis by auto
qed

section \<open>Sections without a chapters array\<close>

text \<open>
  Claim C10. For an update that reaches the sections step (the course exists, the caller
  is its owner and the price step has let the patch through) with a sections value,
  structured or as a JSON text, in which some section has no chapters array: the handler
  does not answer with a validation error; the \<^verbatim>\<open>TypeError\<close> of
  \<^verbatim>\<open>section.chapters.map\<close> falls into the catch branch, the answer is 500 with the
  message \<^verbatim>\<open>Error updating course\<close>, and the course table is unchanged. Nothing
  checks the shape of the sections before \<^verbatim>\<open>section.chapters\<close> is dereferenced.
\<close>

theorem unshaped_sections_give_500:
  assumes "courses w courseId = Some course"
    and "owner_is (map_of course ''teacherId'') userId"
    and "normalize_price E body = Inr upd1"
    and "map_of body ''sections'' = Some v"
    and "submitted_as E v secs"
    and "\<exists>s \<in> set secs. lacks_chapters s"
  shows "\<exists>e n. updateCourse E courseId userId body w =
            (reply_error 500 ''Error updating course'' (ErrThrown e), w\<lparr>uuid_next := n\<rparr>)
          \<and> status (fst (updateCourse E courseId userId body w)) = 500
          \<and> courses (snd (updateCourse E courseId userId body w)) = courses w"
proof -
  from normalize_sections_lacking [OF assms(5,6), of "uuid_next w"]
  obtain e n where f: "normalize_sections E v (uuid_next w) = (Inl e, n)" by blast
  from assms(3,4) have "map_of upd1 ''sections'' = Some v"
    by (simp add: normalize_price_sections)
  with f submitted_truthy [OF assms(5)]
  have "update_sections E upd1 (uuid_next w) = (Inl e, n)"
    by (simp add: update_sections_def)
  with assms(1,2,3) have "updateCourse E courseId userId body w =
            (reply_error 500 ''Error updating course'' (ErrThrown e), w\<lparr>uuid_next := n\<rparr>)"
    by (simp add: updateCourse_def)
  then show ?thesis by (auto simp: reply_error_def)
qed

theorem unshaped_sections_give_500_witness:
  "lacks_chapters (JObj [(''sectionTitle'', JStr ''Intro'')])
   \<and> status (fst (updateCourse demo_env ''c1'' (Some ''T1'')
        [(''sections'', JArr [JObj [(''sectionTitle'', JStr ''Intro'')]])] world0)) = 500
   \<and> courses (snd (updateCourse demo_env ''c1'' (Some ''T1'')
        [(''sections'', JArr [JObj [(''sectionTitle'', JStr ''Intro'')]])] world0)) = courses world0"
proof -
  let ?secs = "[JObj [(''sectionTitle'', JStr ''Intro'')]]"
  let ?body = "[(''sections'', JArr ?secs)]"
  have own: "owner_is (map_of course_c1 ''teacherId'') (Some ''T1'')"
    by (simp add: course_c1_teacher)
  have p: "normalize_price demo_env ?body = Inr ?body" by (simp add: normalize_price_def)
  have m: "map_of ?body ''sections'' = Some (JArr ?secs)" by simp
  have sub: "submitted_as demo_env (JArr ?secs) ?secs" by (simp add: submitted_as_def)
  have l: "lacks_chapters (JObj [(''sectionTitle'', JStr ''Intro'')])"
    by (simp add: lacks_chapters_def chapters_of_def)
  then have ex: "\<exists>s \<in> set ?secs. lacks_chapters s" by simp
  from unshaped_sections_give_500 [OF world0_c1 own p m sub ex] l
  show ?thesis by simp
qed

section \<open>The upload URL\<close>

text \<open>
  Claim C9, as stated, fails: between the check of the body and the request to the signer
  the handler tests \<^verbatim>\<open>process.env.S3_BUCKET_NAME\<close> and throws when it is not set. With
  both \<^verbatim>\<open>fileName\<close> and \<^verbatim>\<open>fileType\<close> given and the bucket unset, the answer is 500,
  no signed URL is requested and no \<^verbatim>\<open>videoUrl\<close> is returned.
\<close>

theorem unset_bucket_no_request:
  "truthy (map_of upload_body ''fileName'') \<and> truthy (map_of upload_body ''fileType'')
   \<and> status (fst (fst (getUploadVideoUrl demo_env unset_penv upload_body world0))) = 500
   \<and> data (fst (fst (getUploadVideoUrl demo_env unset_penv upload_body world0))) = None
   \<and> error (fst (fst (getUploadVideoUrl demo_env unset_penv upload_body world0)))
       = Some (ErrText ''S3_BUCKET_NAME is not configured'')
   \<and> snd (fst (getUploadVideoUrl demo_env unset_penv upload_body world0)) = []"
  by code_simp

text \<open>
  Claim C9, amended. When \<^verbatim>\<open>fileName\<close> or \<^verbatim>\<open>fileType\<close> is missing (absent or falsy)
  the answer is 400 and the signer is not called. When both are given and the bucket is
  not configured, or the conversion of \<^verbatim>\<open>fileName\<close> to a string throws, the answer is
  500 and the signer is not called. When both are given, \<^verbatim>\<open>fileName\<close> converts to the
  string \<open>name\<close> (a string converts to itself), the bucket and the content delivery domain
  are configured and the signer returns a URL, the handler makes one request to the
  signer, for \<^verbatim>\<open>putObject\<close> with 60 seconds of validity, the key
  \<^verbatim>\<open>videos/{uniqueId}/{name}\<close> and the declared content type, and answers with that URL
  and with \<^verbatim>\<open>videoUrl\<close> equal to the domain, a slash, and the same key.
\<close>

theorem upload_url_contract:
  "(\<not> truthy (map_of body ''fileName'') \<or> \<not> truthy (map_of body ''fileType'') \<longrightarrow>
      status (fst (fst (getUploadVideoUrl E penv body w))) = 400
      \<and> snd (fst (getUploadVideoUrl E penv body w)) = [])
   \<and> (\<forall>fileName fileType.
         map_of body ''fileName'' = Some fileName \<and> truthy (Some fileName)
         \<and> map_of body ''fileType'' = Some fileType \<and> truthy (Some fileType)
         \<and> (S3_BUCKET_NAME penv = None \<or> S3_BUCKET_NAME penv = Some []
              \<or> (\<exists>e. js_toString E fileName = Inl e)) \<longrightarrow>
         status (fst (fst (getUploadVideoUrl E penv body w))) = 500
         \<and> data (fst (fst (getUploadVideoUrl E penv body w))) = None
         \<and> snd (fst (getUploadVideoUrl E penv body w)) = [])
   \<and> (\<forall>fileName fileType name bucket domain uploadUrl.
         map_of body ''fileName'' = Some fileName \<and> truthy (Some fileName)
         \<and> map_of body ''fileType'' = Some fileType \<and> truthy (Some fileType)
         \<and> js_toString E fileName = Inr name
         \<and> S3_BUCKET_NAME penv = Some bucket \<and> bucket \<noteq> []
         \<and> CLOUDFRONT_DOMAIN penv = Some domain
         \<and> getSignedUrl E ''putObject''
              \<lparr>Bucket = bucket, Key = upload_key (uuidv4_src E (uuid_next w)) name,
               Expires = 60, ContentType = fileType\<rparr> = Inr uploadUrl \<longrightarrow>
         fst (getUploadVideoUrl E penv body w) =
           (reply_data ''Upload URL generated successfully''
              (JObj [(''uploadUrl'', JStr uploadUrl),
                     (''videoUrl'',
                      JStr (domain @ ''/'' @ upload_key (uuidv4_src E (uuid_next w)) name))]),
            [\<lparr>Bucket = bucket, Key = upload_key (uuidv4_src E (uuid_next w)) name,
              Expires = 60, ContentType = fileType\<rparr>]))"
proof (intro conjI allI impI)
  assume "\<not> truthy (map_of body ''fileName'') \<or> \<not> truthy (map_of body ''fileType'')"
  then show "status (fst (fst (getUploadVideoUrl E penv body w))) = 400"
    and "snd (fst (getUploadVideoUrl E penv body w)) = []"
    by (auto simp: getUploadVideoUrl_def reply_def split: option.splits)
next
  fix fileName fileType
  assume a: "map_of body ''fileName'' = Some fileName \<and> truthy (Some fileName)
         \<and> map_of body ''fileType'' = Some fileType \<and> truthy (Some fileType)
         \<and> (S3_BUCKET_NAME penv = None \<or> S3_BUCKET_NAME penv = Some []
              \<or> (\<exists>e. js_toString E fileName = Inl e))"
  then show "status (fst (fst (getUploadVideoUrl E penv body w))) = 500"
    and "data (fst (fst (getUploadVideoUrl E penv body w))) = None"
    and "snd (fst (getUploadVideoUrl E penv body w)) = []"
    by (auto simp: getUploadVideoUrl_def reply_error_def Let_def split: sum.splits)
next
  fix fileName fileType name bucket domain uploadUrl
  assume "map_of body ''fileName'' = Some fileName \<and> truthy (Some fileName)
         \<and> map_of body ''fileType'' = Some fileType \<and> truthy (Some fileType)
         \<and> js_toString E fileName = Inr name
         \<and> S3_BUCKET_NAME penv = Some bucket \<and> bucket \<noteq> []
         \<and> CLOUDFRONT_DOMAIN penv = Some domain
         \<and> getSignedUrl E ''putObject''
              \<lparr>Bucket = bucket, Key = upload_key (uuidv4_src E (uuid_next w)) name,
               Expires = 60, ContentType = fileType\<rparr> = Inr uploadUrl"
  then show "fst (getUploadVideoUrl E penv body w) =
           (reply_data ''Upload URL generated successfully''
              (JObj [(''uploadUrl'', JStr uploadUrl),
                     (''videoUrl'',
                      JStr (domain @ ''/'' @ upload_key (uuidv4_src E (uuid_next w)) name))]),
            [\<lparr>Bucket = bucket, Key = upload_key (uuidv4_src E (uuid_next w)) name,
              Expires = 60, ContentType = fileType\<rparr>])"
    by (simp add: getUploadVideoUrl_def upload_key_def template_env_def Let_def)
qed

theorem upload_url_contract_witness:
  "status (fst (fst (getUploadVideoUrl demo_env demo_penv [(''fileName'', JStr ''intro.mp4'')] world0))) = 400
   \<and> status (fst (fst (getUploadVideoUrl demo_env unset_penv upload_body world0))) = 500
   \<and> js_toString demo_env (JObj [(''toString'', JNum 1)]) = Inl TypeError
   \<and> status (fst (fst (getUploadVideoUrl demo_env demo_penv
         [(''fileName'', JObj [(''toString'', JNum 1)]), (''fileType'', JStr ''video/mp4'')]
         world0))) = 500
   \<and> snd (fst (getUploadVideoUrl demo_env demo_penv
         [(''fileName'', JObj [(''toString'', JNum 1)]), (''fileType'', JStr ''video/mp4'')]
         world0)) = []
   \<and> js_toString demo_env (JStr ''intro.mp4'') = Inr ''intro.mp4''
   \<and> fst (getUploadVideoUrl demo_env demo_penv upload_body world0) =
       (reply_data ''Upload URL generated successfully''
          (JObj [(''uploadUrl'', JStr ''https://s3.test/lms-videos/videos/uuid-0/intro.mp4''),
                 (''videoUrl'', JStr ''https://cdn.test/videos/uuid-0/intro.mp4'')]),
        [\<lparr>Bucket = ''lms-videos'', Key = ''videos/uuid-0/intro.mp4'',
          Expires = 60, ContentType = JStr ''video/mp4''\<rparr>])"
proof -
  note c = upload_url_contract
  let ?thrower = "[(''fileName'', JObj [(''toString'', JNum 1)]), (''fileType'', JStr ''video/mp4'')]"
  have k: "upload_key (uuidv4_src demo_env (uuid_next world0)) ''intro.mp4''
             = ''videos/uuid-0/intro.mp4''"
    by code_simp
  have one: "status (fst (fst (getUploadVideoUrl demo_env demo_penv
                [(''fileName'', JStr ''intro.mp4'')] world0))) = 400"
    using c [of "[(''fileName'', JStr ''intro.mp4'')]" demo_env demo_penv world0] by simp
  have two: "status (fst (fst (getUploadVideoUrl demo_env unset_penv upload_body world0))) = 500"
    using c [of upload_body demo_env unset_penv world0]
    by (simp add: upload_body_def unset_penv_def)
  have throws: "js_toString demo_env (JObj [(''toString'', JNum 1)]) = Inl TypeError"
    by (simp add: demo_env_def plain_object_text_def)
  have three: "status (fst (fst (getUploadVideoUrl demo_env demo_penv ?thrower world0))) = 500
      \<and> snd (fst (getUploadVideoUrl demo_env demo_penv ?thrower world0)) = []"
    using c [of ?thrower demo_env demo_penv world0] throws by simp
  have sign: "getSignedUrl demo_env ''putObject''
              \<lparr>Bucket = ''lms-videos'', Key = ''videos/uuid-0/intro.mp4'',
               Expires = 60, ContentType = JStr ''video/mp4''\<rparr>
            = Inr ''https://s3.test/lms-videos/videos/uuid-0/intro.mp4''"
    by (simp add: demo_env_def demo_sign_def)
  have four: "fst (getUploadVideoUrl demo_env demo_penv upload_body world0) =
       (reply_data ''Upload URL generated successfully''
          (JObj [(''uploadUrl'', JStr ''https://s3.test/lms-videos/videos/uuid-0/intro.mp4''),
                 (''videoUrl'', JStr ''https://cdn.test/videos/uuid-0/intro.mp4'')]),
        [\<lparr>Bucket = ''lms-videos'', Key = ''videos/uuid-0/intro.mp4'',
          Expires = 60, ContentType = JStr ''video/mp4''\<rparr>])"
    using c [of upload_body demo_env demo_penv world0] k sign
    by (simp add: upload_body_def demo_penv_def)
  from one two throws three four show ?thesis by simp
qed

section \<open>The optimistic progress patch\<close>

subsection \<open>What the recipe writes\<close>

lemma object_assign_noop:
  "\<forall>p \<in> set src. map_of t (fst p) = Some (snd p) \<Longrightarrow> object_assign t src = t"
  by (induction src arbitrary: t) (auto simp: obj_set_same)

lemma fields_agree:
  "distinct (map fst d) \<Longrightarrow> \<forall>p \<in> set d. map_of d (fst p) = Some (snd p)"
  by auto

lemma set_obj_set:
  "set (obj_set k v fs) \<subseteq> insert (k, v) (set fs)"
  by (induction fs) auto

lemma object_assign_one_write:
  assumes "\<forall>p \<in> set src. fst p \<noteq> k \<longrightarrow> map_of t (fst p) = Some (snd p)"
    and "\<forall>p \<in> set src. fst p = k \<longrightarrow> snd p = v"
    and "k \<in> fst ` set src"
  shows "object_assign t src = obj_set k v t"
  using assms
proof (induction src arbitrary: t)
  case Nil
  then show ?case by simp
next
  case (Cons p ps)
  show ?case
  proof (cases "fst p = k")
    case True
    with Cons.prems(2) have v: "snd p = v" by simp
    have "\<forall>q \<in> set ps. map_of (obj_set k v t) (fst q) = Some (snd q)"
      using Cons.prems(1,2) by (auto simp: map_of_obj_set)
    from object_assign_noop [OF this] True v show ?thesis by simp
  next
    case False
    with Cons.prems(1) have "obj_set (fst p) (snd p) t = t" by (simp add: obj_set_same)
    moreover from False Cons.prems(3) have "k \<in> fst ` set ps" by auto
    ultimately show ?thesis using Cons.IH [of t] Cons.prems(1,2) by simp
  qed
qed

lemma progress_recipe_sets:
  assumes "distinct (map fst d)"
  shows "progress_recipe secs d = obj_set ''sections'' secs d"
proof -
  let ?src = "obj_set ''sections'' secs d"
  have sub: "set ?src \<subseteq> insert (''sections'', secs) (set d)" by (rule set_obj_set)
  have dsrc: "distinct (map fst ?src)" using assms by (rule distinct_obj_set)
  have a: "\<forall>p \<in> set ?src. fst p \<noteq> ''sections'' \<longrightarrow> map_of d (fst p) = Some (snd p)"
    using sub assms by auto
  have b: "\<forall>p \<in> set ?src. fst p = ''sections'' \<longrightarrow> snd p = secs"
  proof (intro ballI impI)
    fix p assume "p \<in> set ?src" "fst p = ''sections''"
    then have "(''sections'', snd p) \<in> set ?src" by (metis prod.collapse)
    with dsrc have "map_of ?src ''sections'' = Some (snd p)" by simp
    then show "snd p = secs" by (simp add: map_of_obj_set)
  qed
  have c: "''sections'' \<in> fst ` set ?src" by (simp add: keys_obj_set)
  from object_assign_one_write [OF a b c] show ?thesis by (simp add: progress_recipe_def)
qed

lemma written_fields_agree:
  "\<forall>p \<in> set xs. map_of base (fst p) = Some (snd p) \<Longrightarrow> written_fields base xs = []"
  by (induction xs) auto

lemma written_fields_obj_set:
  assumes "\<forall>p \<in> set xs. map_of base (fst p) = Some (snd p)"
  shows "written_fields base (obj_set k v xs) =
           (case map_of base k of
              None \<Rightarrow> [(Add k v, Remove k)]
            | Some old \<Rightarrow> if old = v then [] else [(Replace k v, Replace k old)])"
  using assms
proof (induction xs)
  case Nil
  then show ?case by (simp split: option.splits)
next
  case (Cons p ps)
  then show ?case
    by (cases "fst p = k") (auto simp: written_fields_agree split: option.splits)
qed

lemma removed_fields_none:
  "\<forall>p \<in> set xs. fst p \<in> fst ` set next \<Longrightarrow> removed_fields xs next = []"
proof (induction xs)
  case Nil
  then show ?case by simp
next
  case (Cons p ps)
  then have "map_of next (fst p) \<noteq> None" by (simp add: map_of_eq_None_iff)
  with Cons show ?case by (auto split: option.splits)
qed

lemma produce_progress:
  assumes "distinct (map fst d)"
  shows "produceWithPatches d (progress_recipe secs) =
           (case map_of d ''sections'' of
              None \<Rightarrow> \<lparr>patches = [Add ''sections'' secs], inversePatches = [Remove ''sections'']\<rparr>
            | Some old \<Rightarrow>
                if old = secs then \<lparr>patches = [], inversePatches = []\<rparr>
                else \<lparr>patches = [Replace ''sections'' secs],
                      inversePatches = [Replace ''sections'' old]\<rparr>)"
proof -
  have r: "removed_fields d (obj_set ''sections'' secs d) = []"
    by (rule removed_fields_none) (simp add: keys_obj_set)
  have w: "written_fields d (obj_set ''sections'' secs d) =
           (case map_of d ''sections'' of
              None \<Rightarrow> [(Add ''sections'' secs, Remove ''sections'')]
            | Some old \<Rightarrow> if old = secs then []
                           else [(Replace ''sections'' secs, Replace ''sections'' old)])"
    by (rule written_fields_obj_set) (use assms in auto)
  show ?thesis
    by (simp add: produceWithPatches_def progress_recipe_sets [OF assms] r w Let_def
        split: option.splits)
qed

lemma filter_absent: "k \<notin> fst ` set fs \<Longrightarrow> filter (\<lambda>p. fst p \<noteq> k) fs = fs"
  by (induction fs) auto

text \<open>The patches of the optimistic recipe write the submitted sections, and the inverse
  patches take the patched record back to the cached one.\<close>

lemma progress_patches_apply:
  assumes "distinct (map fst d)"
  shows "applyPatches d (patches (produceWithPatches d (progress_recipe secs)))
           = obj_set ''sections'' secs d"
    and "applyPatches (obj_set ''sections'' secs d)
           (inversePatches (produceWithPatches d (progress_recipe secs))) = d"
proof -
  show "applyPatches d (patches (produceWithPatches d (progress_recipe secs)))
           = obj_set ''sections'' secs d"
    by (simp add: produce_progress [OF assms] applyPatches_def obj_set_same split: option.splits)
  show "applyPatches (obj_set ''sections'' secs d)
           (inversePatches (produceWithPatches d (progress_recipe secs))) = d"
  proof (cases "map_of d ''sections''")
    case None
    then have "''sections'' \<notin> fst ` set d" by (simp add: absent_key)
    with None show ?thesis
      by (simp add: produce_progress [OF assms] applyPatches_def obj_set_new filter_absent)
  next
    case (Some old)
    then show ?thesis
      by (simp add: produce_progress [OF assms] applyPatches_def obj_set_twice obj_set_same)
  qed
qed

subsection \<open>Rollback\<close>

text \<open>
  Claim C6. When the progress update fails after the optimistic patch, \<^verbatim>\<open>undo\<close> takes
  the query cache back to what it was before \<^verbatim>\<open>onQueryStarted\<close> ran: the cached progress
  record equals its value before the patch. (Cached records are objects: one field for
  each key.)
\<close>

theorem failed_update_restores_cache:
  assumes "\<forall>d. cache args = Some d \<longrightarrow> one_field_per_key d"
  shows "onQueryStarted args sections False cache = cache"
proof (cases "cache args")
  case None
  then show ?thesis
    by (simp add: onQueryStarted_def optimistic_patch_def updateQueryData_def undo_def
        patchQueryData_def)
next
  case (Some d)
  with assms have dd: "distinct (map fst d)" by (simp add: one_field_per_key_def)
  from Some progress_patches_apply [OF dd, of sections]
  have "onQueryStarted args sections False cache = cache(args \<mapsto> d)"
    by (simp add: onQueryStarted_def optimistic_patch_def updateQueryData_def undo_def
        patchQueryData_def Let_def)
  with Some show ?thesis by (simp add: map_upd_triv)
qed

theorem failed_update_restores_cache_witness:
  "snd (optimistic_patch (''U1'', ''c1'') submitted_s1 cache0) (''U1'', ''c1'')
     \<noteq> cache0 (''U1'', ''c1'')
   \<and> onQueryStarted (''U1'', ''c1'') submitted_s1 False cache0 = cache0"
proof -
  have h: "\<forall>d. cache0 (''U1'', ''c1'') = Some d \<longrightarrow> one_field_per_key d"
    by (simp add: cache0_def progress_c1_def one_field_per_key_def)
  have changed: "snd (optimistic_patch (''U1'', ''c1'') submitted_s1 cache0) (''U1'', ''c1'')
     \<noteq> cache0 (''U1'', ''c1'')"
    by code_simp
  from failed_update_restores_cache
         [where cache = cache0 and args = "(''U1'', ''c1'')" and sections = submitted_s1] h changed
  show ?thesis by simp
qed

subsection \<open>Merge or replace\<close>

text \<open>
  Claim C7, as stated, fails: the recipe assigns \<^verbatim>\<open>progressData.sections\<close> to the
  \<^verbatim>\<open>sections\<close> field of the draft, so the submitted array takes the place of the cached
  one. The cache holds progress for sections \<open>s1\<close> and \<open>s2\<close>; the update submits \<open>s1\<close>
  only; after the optimistic patch the cached record has the one section \<open>s1\<close>, and the
  record of \<open>s2\<close> is gone.
\<close>

theorem unnamed_section_dropped:
  "cache0 (''U1'', ''c1'') =
     Some [(''userId'', JStr ''U1''), (''courseId'', JStr ''c1''), (''overallProgress'', JNum 50),
           (''sections'', JArr [JObj [(''sectionId'', JStr ''s1''), (''chapters'', JArr [])],
                                JObj [(''sectionId'', JStr ''s2''), (''chapters'', JArr [])]])]
   \<and> snd (optimistic_patch (''U1'', ''c1'')
            (JArr [JObj [(''sectionId'', JStr ''s1''),
                         (''chapters'', JArr [JObj [(''chapterId'', JStr ''ch-1''),
                                                    (''completed'', JBool True)]])]])
            cache0) (''U1'', ''c1'') =
     Some [(''userId'', JStr ''U1''), (''courseId'', JStr ''c1''), (''overallProgress'', JNum 50),
           (''sections'', JArr [JObj [(''sectionId'', JStr ''s1''),
                                      (''chapters'', JArr [JObj [(''chapterId'', JStr ''ch-1''),
                                                                 (''completed'', JBool True)]])]])]"
  by code_simp

text \<open>
  Claim C7, amended. Before the network call resolves, the cached progress record, when
  there is one, is patched at the level of its fields: its \<^verbatim>\<open>sections\<close> field becomes
  the submitted array as a whole, and every other field of the cached record stays as it
  was. A call that succeeds leaves the cache in this patched state.
\<close>

theorem optimistic_patch_replaces_sections:
  assumes "cache args = Some d" and "one_field_per_key d"
  shows "\<exists>d'. snd (optimistic_patch args sections cache) args = Some d'
           \<and> map_of d' ''sections'' = Some sections
           \<and> (\<forall>k. k \<noteq> ''sections'' \<longrightarrow> map_of d' k = map_of d k)
           \<and> onQueryStarted args sections True cache = snd (optimistic_patch args sections cache)"
proof -
  from assms(2) have dd: "distinct (map fst d)" by (simp add: one_field_per_key_def)
  from assms(1) progress_patches_apply(1) [OF dd, of sections]
  have "snd (optimistic_patch args sections cache) args = Some (obj_set ''sections'' sections d)"
    by (simp add: optimistic_patch_def updateQueryData_def patchQueryData_def Let_def)
  then show ?thesis
    by (simp add: map_of_obj_set onQueryStarted_def split: prod.splits)
qed

theorem optimistic_patch_replaces_sections_witness:
  "\<exists>d'. snd (optimistic_patch (''U1'', ''c1'') submitted_s1 cache0) (''U1'', ''c1'') = Some d'
      \<and> map_of d' ''sections'' = Some submitted_s1
      \<and> map_of d' ''overallProgress'' = Some (JNum 50)"
proof -
  have c: "cache0 (''U1'', ''c1'') = Some progress_c1" by (simp add: cache0_def)
  have o: "one_field_per_key progress_c1"
    by (simp add: progress_c1_def one_field_per_key_def)
  have p: "map_of progress_c1 ''overallProgress'' = Some (JNum 50)"
    by (simp add: progress_c1_def)
  from optimistic_patch_replaces_sections
         [where cache = cache0 and args = "(''U1'', ''c1'')" and d = progress_c1
            and sections = submitted_s1] c o p
  show ?thesis by auto
qed

end
